theory Spec2Isabelle
  imports Main "HOL-Library.Multiset" "HOL-Library.Sublist"
begin

section \<open>The CSV importer of import-csv.py\<close>

text \<open>
  The script connects to a database, asks before clearing a non-empty table, reads the
  CSV file row by row, converts four fields, inserts each row, commits every 100 rows and
  at the end, and prints a report. Everything the script does to the outside world is
  recorded, in order, in a trace of events; the outside world (the database, the operator,
  the file, Python's \<open>float\<close>) is a record of parameters.
\<close>

text \<open>
  Outside the model: \<open>conn.cursor()\<close> and every \<open>print\<close> but the one on line 29 are
  taken not to raise (the others run before the connection is asked for or inside the
  \<open>try\<close> of \<open>main\<close>); what the
  server does with uncommitted rows when the connection is closed is not described; a
  string is a list of code points below 256; the number type of \<open>float\<close> is a type
  parameter, and \<open>float\<close> itself, the acceptance of a statement by the database and its
  ordering of rows by date are parameters of a run.
\<close>

subsection \<open>Exceptions and values\<close>

text \<open>
  The exceptions the script can meet. All of them are subclasses of \<open>Exception\<close>;
  \<open>IOFailure\<close> stands for any exception of \<open>open\<close> or of reading the file other than
  \<open>FileNotFoundError\<close> (a permission error, bytes that are not UTF-8, a malformed CSV).
\<close>

datatype pyerr =
    KeyError string
  | ValueError
  | TypeError
  | FileNotFoundError
  | IOFailure
  | DbError
  | EOFError

text \<open>
  The sixteen parameters bound by one INSERT, in the order of the statement. A text column
  is the CSV cell, or \<open>None\<close> (Python's None, SQL null).
\<close>

record 'n txn =
  transaction_id :: "string option"
  transaction_date :: "string option"
  transaction_time :: "string option"
  account_id :: "string option"
  account_name :: "string option"
  account_type :: "string option"
  account_owner :: "string option"
  description :: "string option"
  category :: "string option"
  subcategory :: "string option"
  amount :: 'n
  transaction_type :: "string option"
  balance_after :: "'n option"
  is_recurring :: "int option"
  recurring_frequency :: "string option"
  notes_col :: "string option"

text \<open>
  A row of \<open>csv.DictReader\<close>: a dictionary from column names to cells. A key is absent
  when the header has no such column; a cell is \<open>None\<close> when the line is shorter than
  the header.
\<close>

type_synonym csv_row = "string \<Rightarrow> string option option"

definition and_then :: "'e + 'a \<Rightarrow> ('a \<Rightarrow> 'e + 'b) \<Rightarrow> 'e + 'b" where
  "and_then r f = (case r of Inl e \<Rightarrow> Inl e | Inr x \<Rightarrow> f x)"

definition lookup :: "csv_row \<Rightarrow> string \<Rightarrow> pyerr + string option" where
  "lookup row k = (case row k of None \<Rightarrow> Inl (KeyError k) | Some v \<Rightarrow> Inr v)"

text \<open>
  \<open>float(v)\<close>: a TypeError on None, a ValueError on a string that is not a number. What
  Python's \<open>float\<close> accepts, and the number it gives, is the parameter \<open>pf\<close>.
\<close>

definition py_float :: "(string \<Rightarrow> 'n option) \<Rightarrow> string option \<Rightarrow> pyerr + 'n" where
  "py_float pf v =
     (case v of
        None \<Rightarrow> Inl TypeError
      | Some s \<Rightarrow> (case pf s of None \<Rightarrow> Inl ValueError | Some x \<Rightarrow> Inr x))"

subsection \<open>Converting one row (lines 76 to 98)\<close>

definition conv_is_recurring :: "string option \<Rightarrow> int option" where
  "conv_is_recurring v =
     (if v = Some '''' then None else (if v = Some ''True'' then Some 1 else Some 0))"

definition conv_nullable :: "string option \<Rightarrow> string option" where
  "conv_nullable v = (if v = Some '''' then None else v)"

definition conv_balance_after ::
  "(string \<Rightarrow> 'n option) \<Rightarrow> string option \<Rightarrow> pyerr + 'n option" where
  "conv_balance_after pf v =
     (if v = Some '''' then Inr None else and_then (py_float pf v) (\<lambda>x. Inr (Some x)))"

definition convert_row :: "(string \<Rightarrow> 'n option) \<Rightarrow> csv_row \<Rightarrow> pyerr + 'n txn" where
  "convert_row pf row =
     and_then (lookup row ''is_recurring'') (\<lambda>ir.
     and_then (lookup row ''recurring_frequency'') (\<lambda>rf.
     and_then (lookup row ''notes'') (\<lambda>nt.
     and_then (lookup row ''balance_after'') (\<lambda>ba.
     and_then (conv_balance_after pf ba) (\<lambda>bal.
     and_then (lookup row ''transaction_id'') (\<lambda>c1.
     and_then (lookup row ''transaction_date'') (\<lambda>c2.
     and_then (lookup row ''transaction_time'') (\<lambda>c3.
     and_then (lookup row ''account_id'') (\<lambda>c4.
     and_then (lookup row ''account_name'') (\<lambda>c5.
     and_then (lookup row ''account_type'') (\<lambda>c6.
     and_then (lookup row ''account_owner'') (\<lambda>c7.
     and_then (lookup row ''description'') (\<lambda>c8.
     and_then (lookup row ''category'') (\<lambda>c9.
     and_then (lookup row ''subcategory'') (\<lambda>c10.
     and_then (lookup row ''amount'') (\<lambda>am.
     and_then (py_float pf am) (\<lambda>amt.
     and_then (lookup row ''transaction_type'') (\<lambda>c12.
     Inr \<lparr> transaction_id = c1, transaction_date = c2, transaction_time = c3,
           account_id = c4, account_name = c5, account_type = c6, account_owner = c7,
           description = c8, category = c9, subcategory = c10, amount = amt,
           transaction_type = c12, balance_after = bal,
           is_recurring = conv_is_recurring ir,
           recurring_frequency = conv_nullable rf,
           notes_col = conv_nullable nt \<rparr>))))))))))))))))))"

subsection \<open>The outside world and the trace\<close>

datatype 'n db_call =
    Count
  | Truncate
  | Insert "'n txn"
  | Commit
  | SelectTop5
  | CloseConn

text \<open>One constructor for each \<open>print\<close> of the script.\<close>

datatype 'n msg =
    Rule
  | Title
  | Connected
  | ConnectError
  | TableHas nat
  | Cleared
  | Cancelled
  | ReadingFrom
  | Importing
  | Progress nat
  | RowError nat pyerr
  | CsvNotFound
  | CsvError pyerr
  | Completed
  | Imported nat
  | Errors nat
  | SampleHeader
  | Dashes
  | SampleRow "string option" "string option" "string option" 'n
  | Closed

datatype 'n event = Print "'n msg" | Db "'n db_call" | Input

text \<open>
  The file: \<open>open\<close> raises, or the reader yields rows and then either ends or raises.
\<close>

datatype csv_source = OpenRaises pyerr | Opened "csv_row list" "pyerr option"

text \<open>
  The parameters of a run. \<open>announce_ok\<close> says whether the print on line 29, which
  announces the connection, returns: it runs after \<open>pyodbc.connect\<close> has returned,
  inside a \<open>try\<close> that catches \<open>pyodbc.Error\<close> only, and before \<open>main\<close> enters its
  \<open>try\<close>, so an exception of it (a console that cannot encode the check mark, a closed
  pipe) ends the run. \<open>db_ok n q tbl\<close> says whether the database executes the call
  \<open>q\<close>, issued as event number \<open>n\<close> of the run on the table \<open>tbl\<close>; \<open>order_by_date\<close> is
  the database's evaluation of \<open>ORDER BY transaction_date\<close>; \<open>response\<close> is the line
  read at the prompt (\<open>None\<close> for end of input).
\<close>

record 'n env =
  connect_ok :: bool
  announce_ok :: bool
  db_ok :: "nat \<Rightarrow> 'n db_call \<Rightarrow> 'n txn list \<Rightarrow> bool"
  order_by_date :: "'n txn list \<Rightarrow> 'n txn list"
  response :: "string option"
  csv :: csv_source
  pyfloat :: "string \<Rightarrow> 'n option"

record 'n state =
  table :: "'n txn list"
  trace :: "'n event list"

definition emit :: "'n event \<Rightarrow> 'n state \<Rightarrow> 'n state" where
  "emit ev s = s\<lparr>trace := trace s @ [ev]\<rparr>"

definition py_print :: "'n msg \<Rightarrow> 'n state \<Rightarrow> 'n state" where
  "py_print m s = emit (Print m) s"

definition effect :: "'n db_call \<Rightarrow> 'n txn list \<Rightarrow> 'n txn list" where
  "effect q tbl = (case q of Truncate \<Rightarrow> [] | Insert t \<Rightarrow> tbl @ [t] | _ \<Rightarrow> tbl)"

text \<open>
  A call to the database is recorded whether it succeeds or not; it changes the table
  only when it succeeds, and raises otherwise.
\<close>

definition db_exec :: "'n env \<Rightarrow> 'n db_call \<Rightarrow> 'n state \<Rightarrow> pyerr option \<times> 'n state" where
  "db_exec E q s =
     (if db_ok E (length (trace s)) q (table s)
      then (None, emit (Db q) (s\<lparr>table := effect q (table s)\<rparr>))
      else (Some DbError, emit (Db q) s))"

subsection \<open>\<open>str.lower\<close>\<close>

text \<open>
  A character is a code point below 256: \<open>lower\<close> moves A to Z and the capital letters of
  Latin-1 (192 to 222, without the multiplication sign 215) up by 32 and leaves the rest.
\<close>

definition lower_char :: "char \<Rightarrow> char" where
  "lower_char c =
     (let n = (of_char c :: nat)
      in if (65 \<le> n \<and> n \<le> 90) \<or> (192 \<le> n \<and> n \<le> 222 \<and> n \<noteq> 215)
         then char_of (n + 32) else c)"

definition lower :: "string \<Rightarrow> string" where
  "lower s = map lower_char s"

subsection \<open>The loop over the rows (lines 73 to 108)\<close>

text \<open>
  The body of the inner \<open>try\<close>: the exception it raises, if any, the value of
  \<open>imported_count\<close> when it stops, and the state.
\<close>

definition try_row ::
  "'n env \<Rightarrow> csv_row \<Rightarrow> nat \<Rightarrow> 'n state \<Rightarrow> pyerr option \<times> nat \<times> 'n state" where
  "try_row E row ic s =
     (case convert_row (pyfloat E) row of
        Inl e \<Rightarrow> (Some e, ic, s)
      | Inr t \<Rightarrow>
          (case db_exec E (Insert t) s of
             (Some e, s1) \<Rightarrow> (Some e, ic, s1)
           | (None, s1) \<Rightarrow>
               (if (ic + 1) mod 100 = 0
                then (case db_exec E Commit s1 of
                        (Some e, s2) \<Rightarrow> (Some e, ic + 1, s2)
                      | (None, s2) \<Rightarrow> (None, ic + 1, py_print (Progress (ic + 1)) s2))
                else (None, ic + 1, s1))))"

definition import_row ::
  "'n env \<Rightarrow> csv_row \<Rightarrow> nat \<times> nat \<times> 'n state \<Rightarrow> nat \<times> nat \<times> 'n state" where
  "import_row E row c =
     (case c of (ic, ec, s) \<Rightarrow>
        (case try_row E row ic s of
           (None, ic', s') \<Rightarrow> (ic', ec, s')
         | (Some e, ic', s') \<Rightarrow>
             (ic', ec + 1, py_print (RowError (ic' + (ec + 1)) e) s')))"

fun import_rows ::
  "'n env \<Rightarrow> csv_row list \<Rightarrow> nat \<times> nat \<times> 'n state \<Rightarrow> nat \<times> nat \<times> 'n state" where
  "import_rows E [] c = c"
| "import_rows E (row # rows) c = import_rows E rows (import_row E row c)"

subsection \<open>The rest of \<open>import_csv_data\<close>\<close>

datatype outcome = Returned | SysExit nat | Uncaught pyerr

definition sample_line :: "'n txn \<Rightarrow> 'n msg" where
  "sample_line r = SampleRow (transaction_id r) (transaction_date r) (description r) (amount r)"

text \<open>Lines 120 to 132.\<close>

definition report :: "'n env \<Rightarrow> nat \<Rightarrow> nat \<Rightarrow> 'n state \<Rightarrow> outcome \<times> 'n state" where
  "report E ic ec s =
     (let s1 = py_print (Imported ic) (py_print Completed (py_print Rule s));
          s2 = (if ec > 0 then py_print (Errors ec) s1 else s1);
          s3 = py_print Rule s2
      in case db_exec E SelectTop5 s3 of
           (Some e, s4) \<Rightarrow> (Uncaught e, s4)
         | (None, s4) \<Rightarrow>
             (Returned,
              foldl (\<lambda>st r. py_print (sample_line r) st)
                    (py_print Dashes (py_print SampleHeader s4))
                    (take 5 (order_by_date E (table s4)))))"

text \<open>The two handlers of the outer \<open>try\<close> (lines 113 to 118).\<close>

definition csv_failed :: "pyerr \<Rightarrow> 'n state \<Rightarrow> outcome \<times> 'n state" where
  "csv_failed e s =
     (if e = FileNotFoundError then (SysExit 1, py_print CsvNotFound s)
      else (SysExit 1, py_print (CsvError e) s))"

text \<open>Lines 63 to 132: the outer \<open>try\<close> and the report.\<close>

definition load_csv :: "'n env \<Rightarrow> 'n state \<Rightarrow> outcome \<times> 'n state" where
  "load_csv E s =
     (case csv E of
        OpenRaises e \<Rightarrow> csv_failed e s
      | Opened rows ending \<Rightarrow>
          (case import_rows E rows (0, 0, py_print Importing (py_print ReadingFrom s)) of
             (ic, ec, s1) \<Rightarrow>
               (case ending of
                  Some e \<Rightarrow> csv_failed e s1
                | None \<Rightarrow>
                    (case db_exec E Commit s1 of
                       (Some e, s2) \<Rightarrow> csv_failed e s2
                     | (None, s2) \<Rightarrow> report E ic ec s2))))"

definition import_csv_data :: "'n env \<Rightarrow> 'n state \<Rightarrow> outcome \<times> 'n state" where
  "import_csv_data E s =
     (case db_exec E Count s of
        (Some e, s1) \<Rightarrow> (Uncaught e, s1)
      | (None, s1) \<Rightarrow>
          (let existing_count = length (table s1)
           in if existing_count > 0
              then (let s2 = emit Input (py_print (TableHas existing_count) s1)
                    in case response E of
                         None \<Rightarrow> (Uncaught EOFError, s2)
                       | Some r \<Rightarrow>
                           (if lower r = ''yes''
                            then (case db_exec E Truncate s2 of
                                    (Some e, s3) \<Rightarrow> (Uncaught e, s3)
                                  | (None, s3) \<Rightarrow>
                                      (case db_exec E Commit s3 of
                                         (Some e, s4) \<Rightarrow> (Uncaught e, s4)
                                       | (None, s4) \<Rightarrow> load_csv E (py_print Cleared s4)))
                            else (Returned, py_print Cancelled s2)))
              else load_csv E s1))"

subsection \<open>\<open>main\<close>\<close>

definition exit_code :: "outcome \<Rightarrow> nat" where
  "exit_code out = (case out of Returned \<Rightarrow> 0 | SysExit n \<Rightarrow> n | Uncaught e \<Rightarrow> 1)"

text \<open>
  The run on a table holding \<open>tbl\<close>: the exit code of the process and the final state.
  When the connection is made and the print that announces it raises, the exception leaves
  \<open>get_connection\<close> and \<open>main\<close> uncaught: the process ends with code 1 and
  \<open>conn.close()\<close> is never called. An exception of \<open>conn.close()\<close> in the
  \<open>finally\<close> block replaces the outcome of the \<open>try\<close>.
\<close>

definition main :: "'n env \<Rightarrow> 'n txn list \<Rightarrow> nat \<times> 'n state" where
  "main E tbl =
     (let s0 = py_print Rule (py_print Title (py_print Rule \<lparr>table = tbl, trace = []\<rparr>))
      in if connect_ok E
         then (if announce_ok E
               then (case import_csv_data E (py_print Connected s0) of
                       (out, s1) \<Rightarrow>
                         (case db_exec E CloseConn s1 of
                            (Some e, s2) \<Rightarrow> (1, s2)
                          | (None, s2) \<Rightarrow> (exit_code out, py_print Closed s2)))
               else (1, s0))
         else (1, py_print ConnectError s0))"

subsection \<open>Observations on a run\<close>

text \<open>
  What a trace records: the rows of the INSERTs it issued, in order, and the number of
  commits it issued.
\<close>

fun inserts_of :: "'n event list \<Rightarrow> 'n txn list" where
  "inserts_of [] = []"
| "inserts_of (Db (Insert t) # evs) = t # inserts_of evs"
| "inserts_of (ev # evs) = inserts_of evs"

fun commits_of :: "'n event list \<Rightarrow> nat" where
  "commits_of [] = 0"
| "commits_of (Db Commit # evs) = Suc (commits_of evs)"
| "commits_of (ev # evs) = commits_of evs"

text \<open>
  The rows of a file that convert, converted, in order. The database accepts a row when it
  executes its INSERT whenever it is issued; a row is well formed when it converts and the
  database accepts it. The amount of a row is not a number when \<open>float(row['amount'])\<close>
  raises. The database is healthy when it executes every call other than an INSERT, and
  reachable when, besides, the connection is made. \<open>events_since s s'\<close> are the events
  between two states of one run.
\<close>

definition converted :: "(string \<Rightarrow> 'n option) \<Rightarrow> csv_row list \<Rightarrow> 'n txn list" where
  "converted pf rows =
     concat (map (\<lambda>row. case convert_row pf row of Inl e \<Rightarrow> [] | Inr t \<Rightarrow> [t]) rows)"

definition accepted :: "'n env \<Rightarrow> 'n txn \<Rightarrow> bool" where
  "accepted E t = (\<forall>n tbl. db_ok E n (Insert t) tbl)"

definition well_formed :: "'n env \<Rightarrow> csv_row \<Rightarrow> bool" where
  "well_formed E row =
     (case convert_row (pyfloat E) row of Inl e \<Rightarrow> False | Inr t \<Rightarrow> accepted E t)"

definition amount_unparseable :: "(string \<Rightarrow> 'n option) \<Rightarrow> csv_row \<Rightarrow> bool" where
  "amount_unparseable pf row =
     (case and_then (lookup row ''amount'') (py_float pf) of Inl e \<Rightarrow> True | Inr x \<Rightarrow> False)"

definition db_healthy :: "'n env \<Rightarrow> bool" where
  "db_healthy E =
     (\<forall>n tbl. db_ok E n Count tbl \<and> db_ok E n Truncate tbl \<and> db_ok E n Commit tbl \<and>
              db_ok E n SelectTop5 tbl \<and> db_ok E n CloseConn tbl)"

definition reachable :: "'n env \<Rightarrow> bool" where
  "reachable E = (connect_ok E \<and> db_healthy E)"

definition events_since :: "'n state \<Rightarrow> 'n state \<Rightarrow> 'n event list" where
  "events_since s s' = drop (length (trace s)) (trace s')"

text \<open>
  The sixteen columns of the file, and the rows that \<open>convert_row\<close> converts: every
  column is there, the \<open>balance_after\<close> cell is empty or a number for \<open>float\<close>, and the
  \<open>amount\<close> cell is a number for \<open>float\<close>.
\<close>

definition columns :: "string list" where
  "columns =
     [''transaction_id'', ''transaction_date'', ''transaction_time'', ''account_id'',
      ''account_name'', ''account_type'', ''account_owner'', ''description'', ''category'',
      ''subcategory'', ''amount'', ''transaction_type'', ''balance_after'', ''is_recurring'',
      ''recurring_frequency'', ''notes'']"

definition row_convertible :: "(string \<Rightarrow> 'n option) \<Rightarrow> csv_row \<Rightarrow> bool" where
  "row_convertible pf row =
     (list_all (\<lambda>k. row k \<noteq> None) columns \<and>
      (case row ''balance_after'' of
         Some (Some v) \<Rightarrow> v = '''' \<or> pf v \<noteq> None
       | _ \<Rightarrow> False) \<and>
      (case row ''amount'' of Some (Some a) \<Rightarrow> pf a \<noteq> None | _ \<Rightarrow> False))"

text \<open>The file was opened and read to its end.\<close>

definition csv_readable :: "csv_source \<Rightarrow> bool" where
  "csv_readable src = (case src of Opened rows None \<Rightarrow> True | _ \<Rightarrow> False)"



subsection \<open>A sample file\<close>

text \<open>
  A row built from its cells, a complete row with a given identifier and amount, and the
  part of \<open>float\<close> these rows need: \<open>float('40')\<close> is 40 and \<open>float('-7')\<close> is -7.
\<close>

definition row_of :: "(string \<times> string) list \<Rightarrow> csv_row" where
  "row_of kvs k = map_option Some (map_of kvs k)"

definition sample_float :: "string \<Rightarrow> int option" where
  "sample_float s = (if s = ''40'' then Some 40 else if s = ''-7'' then Some (-7) else None)"

definition sample_row :: "string \<Rightarrow> string \<Rightarrow> csv_row" where
  "sample_row tid amt = row_of
     [(''transaction_id'', tid), (''transaction_date'', ''2024-01-05''),
      (''transaction_time'', ''09:30:00''), (''account_id'', ''A1''),
      (''account_name'', ''Checking''), (''account_type'', ''checking''),
      (''account_owner'', ''Sam''), (''description'', ''Groceries''),
      (''category'', ''Food''), (''subcategory'', ''Market''), (''amount'', amt),
      (''transaction_type'', ''debit''), (''balance_after'', ''''),
      (''is_recurring'', ''True''), (''recurring_frequency'', ''''), (''notes'', '''')]"

definition sample_txn :: "string \<Rightarrow> int \<Rightarrow> int txn" where
  "sample_txn tid amt =
     \<lparr> transaction_id = Some tid, transaction_date = Some ''2024-01-05'',
       transaction_time = Some ''09:30:00'', account_id = Some ''A1'',
       account_name = Some ''Checking'', account_type = Some ''checking'',
       account_owner = Some ''Sam'', description = Some ''Groceries'',
       category = Some ''Food'', subcategory = Some ''Market'', amount = amt,
       transaction_type = Some ''debit'', balance_after = None, is_recurring = Some 1,
       recurring_frequency = None, notes_col = None \<rparr>"

text \<open>
  A world in which the connection is made and announced and the database executes every
  call.
\<close>

definition sample_env :: "csv_source \<Rightarrow> string option \<Rightarrow> int env" where
  "sample_env src resp =
     \<lparr> connect_ok = True, announce_ok = True, db_ok = (\<lambda>n q tbl. True), order_by_date = (\<lambda>tbl. tbl),
       response = resp, csv = src, pyfloat = sample_float \<rparr>"

text \<open>
  The same world with a database that rejects every INSERT of the identifier \<open>DUP\<close>.
\<close>

definition strict_env :: "csv_source \<Rightarrow> string option \<Rightarrow> int env" where
  "strict_env src resp =
     (sample_env src resp)
       \<lparr> db_ok := (\<lambda>n q tbl. case q of Insert t \<Rightarrow> transaction_id t \<noteq> Some ''DUP''
                                | _ \<Rightarrow> True) \<rparr>"

section \<open>Properties\<close>

subsection \<open>Traces, tables and single steps\<close>

lemma inserts_of_append [simp]: "inserts_of (xs @ ys) = inserts_of xs @ inserts_of ys"
  by (induction xs rule: inserts_of.induct) simp_all

lemma commits_of_append [simp]: "commits_of (xs @ ys) = commits_of xs + commits_of ys"
  by (induction xs rule: commits_of.induct) simp_all

lemma emit_sel [simp]:
  "trace (emit ev s) = trace s @ [ev]" "table (emit ev s) = table s"
  by (simp_all add: emit_def)

lemma py_print_sel [simp]:
  "trace (py_print m s) = trace s @ [Print m]" "table (py_print m s) = table s"
  by (simp_all add: py_print_def)

lemma db_exec_trace [simp]: "trace (snd (db_exec E q s)) = trace s @ [Db q]"
  by (simp add: db_exec_def)

lemma db_exec_cases:
  "db_exec E q s = (r, s') \<Longrightarrow>
     trace s' = trace s @ [Db q] \<and>
     (r = None \<and> table s' = effect q (table s) \<and> db_ok E (length (trace s)) q (table s) \<or>
      r = Some DbError \<and> table s' = table s \<and> \<not> db_ok E (length (trace s)) q (table s))"
  by (auto simp: db_exec_def split: if_splits)

lemma amount_unparseable_fails:
  "amount_unparseable pf row \<Longrightarrow> \<exists>e. convert_row pf row = Inl e"
  unfolding amount_unparseable_def convert_row_def and_then_def
  by (auto split: sum.splits)

text \<open>One iteration\<close>

lemma import_row_skip:
  assumes "convert_row (pyfloat E) row = Inl e"
  shows "import_row E row (ic, ec, s) = (ic, ec + 1, py_print (RowError (ic + (ec + 1)) e) s)"
  using assms by (simp add: import_row_def try_row_def)

lemma import_row_insert:
  assumes "convert_row (pyfloat E) row = Inr t" and "accepted E t"
    and "\<forall>n tbl. db_ok E n Commit tbl"
    and "import_row E row (ic, ec, s) = (ic', ec', s')"
  shows "ic' = ic + 1 \<and> ec' = ec \<and> table s' = table s @ [t] \<and>
         inserts_of (trace s') = inserts_of (trace s) @ [t]"
  using assms
  by (auto simp: import_row_def try_row_def db_exec_def accepted_def effect_def
      split: if_splits)

lemma import_row_commits:
  assumes "import_row E row (ic, ec, s) = (ic', ec', s')"
  shows "(ic' = ic \<or> ic' = ic + 1) \<and>
         commits_of (trace s') =
           commits_of (trace s) + (if ic' = ic + 1 \<and> ic' mod 100 = 0 then 1 else 0)"
  using assms
  by (auto simp: import_row_def try_row_def db_exec_def
      split: if_splits sum.splits)

text \<open>The loop\<close>

lemma import_rows_append:
  "import_rows E (xs @ ys) c = import_rows E ys (import_rows E xs c)"
  by (induction xs arbitrary: c) simp_all

lemma import_rows_commits:
  "import_rows E rows (ic, ec, s) = (ic', ec', s') \<Longrightarrow>
     ic \<le> ic' \<and> commits_of (trace s') + ic div 100 = commits_of (trace s) + ic' div 100"
proof (induction rows arbitrary: ic ec s)
  case Nil
  then show ?case by simp
next
  case (Cons row rows)
  obtain ic1 ec1 s1 where step: "import_row E row (ic, ec, s) = (ic1, ec1, s1)"
    by (cases "import_row E row (ic, ec, s)") auto
  from import_row_commits [OF step]
  have one: "(ic1 = ic \<or> ic1 = ic + 1)"
    and cm: "commits_of (trace s1) =
               commits_of (trace s) + (if ic1 = ic + 1 \<and> ic1 mod 100 = 0 then 1 else 0)"
    by simp_all
  from Cons.prems step have rest: "import_rows E rows (ic1, ec1, s1) = (ic', ec', s')"
    by simp
  from Cons.IH [OF rest]
  have le: "ic1 \<le> ic'"
    and eq: "commits_of (trace s') + ic1 div 100 = commits_of (trace s1) + ic' div 100"
    by simp_all
  have ar: "Suc ic div 100 = ic div 100 + (if Suc ic mod 100 = 0 then 1 else 0)"
    by (simp add: div_Suc)
  from one le have "ic \<le> ic'" by auto
  moreover have "commits_of (trace s') + ic div 100 = commits_of (trace s) + ic' div 100"
  proof (cases "ic1 = ic")
    case True
    with cm eq show ?thesis by simp
  next
    case False
    with one have "ic1 = Suc ic" by simp
    with cm eq ar show ?thesis by simp
  qed
  ultimately show ?case by simp
qed

lemma converted_Cons:
  "converted pf (row # rows) =
     (case convert_row pf row of Inl e \<Rightarrow> [] | Inr t \<Rightarrow> [t]) @ converted pf rows"
  by (simp add: converted_def)

lemma import_rows_result:
  assumes "\<forall>n tbl. db_ok E n Commit tbl"
    and "\<forall>row\<in>set rows. \<forall>t. convert_row (pyfloat E) row = Inr t \<longrightarrow> accepted E t"
    and "import_rows E rows (ic, ec, s) = (ic', ec', s')"
  shows "ic' = ic + length (converted (pyfloat E) rows) \<and>
         ec' + length (converted (pyfloat E) rows) = ec + length rows \<and>
         table s' = table s @ converted (pyfloat E) rows \<and>
         inserts_of (trace s') = inserts_of (trace s) @ converted (pyfloat E) rows"
  using assms(2,3)
proof (induction rows arbitrary: ic ec s)
  case Nil
  then show ?case by (simp add: converted_def)
next
  case (Cons row rows)
  obtain ic1 ec1 s1 where step: "import_row E row (ic, ec, s) = (ic1, ec1, s1)"
    by (cases "import_row E row (ic, ec, s)") auto
  from Cons.prems step have rest: "import_rows E rows (ic1, ec1, s1) = (ic', ec', s')"
    by simp
  from Cons.prems have acc: "\<forall>r\<in>set rows. \<forall>t. convert_row (pyfloat E) r = Inr t \<longrightarrow> accepted E t"
    by simp
  note ih = Cons.IH [OF acc rest]
  show ?case
  proof (cases "convert_row (pyfloat E) row")
    case (Inl e)
    from import_row_skip [OF Inl, of ic ec s] step
    have "ic1 = ic" "ec1 = ec + 1" "table s1 = table s" "inserts_of (trace s1) = inserts_of (trace s)"
      by auto
    with ih Inl show ?thesis by (simp add: converted_Cons)
  next
    case (Inr t)
    with Cons.prems have "accepted E t" by simp
    from import_row_insert [OF Inr this assms(1) step] ih Inr
    show ?thesis by (simp add: converted_Cons)
  qed
qed


text \<open>Traces only grow\<close>

lemma db_exec_ok:
  "db_ok E (length (trace s)) q (table s) \<Longrightarrow>
     db_exec E q s = (None, emit (Db q) (s\<lparr>table := effect q (table s)\<rparr>))"
  by (simp add: db_exec_def)

lemma import_row_ext:
  "import_row E row (ic, ec, s) = (ic', ec', s') \<Longrightarrow> \<exists>evs. trace s' = trace s @ evs"
  by (auto simp: import_row_def try_row_def db_exec_def split: if_splits sum.splits)

lemma import_rows_ext:
  "import_rows E rows (ic, ec, s) = (ic', ec', s') \<Longrightarrow> \<exists>evs. trace s' = trace s @ evs"
proof (induction rows arbitrary: ic ec s)
  case Nil
  then show ?case by simp
next
  case (Cons row rows)
  obtain ic1 ec1 s1 where step: "import_row E row (ic, ec, s) = (ic1, ec1, s1)"
    by (cases "import_row E row (ic, ec, s)") auto
  with Cons.prems have "import_rows E rows (ic1, ec1, s1) = (ic', ec', s')" by simp
  from Cons.IH [OF this] obtain evs where "trace s' = trace s1 @ evs" by blast
  moreover from import_row_ext [OF step] obtain evs1 where "trace s1 = trace s @ evs1" by blast
  ultimately show ?case by simp
qed

lemma foldl_print_trace:
  "trace (foldl (\<lambda>st r. py_print (f r) st) s rs) = trace s @ map (\<lambda>r. Print (f r)) rs"
  by (induction rs arbitrary: s) simp_all

lemma foldl_print_table:
  "table (foldl (\<lambda>st r. py_print (f r) st) s rs) = table s"
  by (induction rs arbitrary: s) simp_all

lemma inserts_of_prints [simp]: "inserts_of (map (\<lambda>r. Print (f r)) rs) = []"
  by (induction rs) simp_all

lemma commits_of_prints [simp]: "commits_of (map (\<lambda>r. Print (f r)) rs) = 0"
  by (induction rs) simp_all

lemma report_run:
  assumes "\<forall>n. db_ok E n SelectTop5 (table s)"
  shows "fst (report E ic ec s) = Returned \<and>
         table (snd (report E ic ec s)) = table s \<and>
         trace (snd (report E ic ec s)) =
           trace s @ [Print Rule, Print Completed, Print (Imported ic)] @
           (if ec > 0 then [Print (Errors ec)] else []) @
           [Print Rule, Db SelectTop5, Print SampleHeader, Print Dashes] @
           map (\<lambda>r. Print (sample_line r)) (take 5 (order_by_date E (table s)))"
  using assms
  by (simp add: report_def db_exec_def foldl_print_trace foldl_print_table effect_def Let_def)

lemma report_ext: "\<exists>evs. trace (snd (report E ic ec s)) = trace s @ evs \<and> commits_of evs = 0 \<and> inserts_of evs = []"
  by (simp add: report_def db_exec_def foldl_print_trace Let_def)

lemma csv_failed_run:
  "fst (csv_failed e s) = SysExit 1 \<and> table (snd (csv_failed e s)) = table s \<and>
   (\<exists>m. trace (snd (csv_failed e s)) = trace s @ [Print m])"
  by (simp add: csv_failed_def)

lemma load_csv_ext: "\<exists>evs. trace (snd (load_csv E s)) = trace s @ evs"
proof (cases "csv E")
  case (OpenRaises e)
  then show ?thesis using csv_failed_run [of e s] by (auto simp: load_csv_def)
next
  case (Opened rows ending)
  obtain ic ec s1 where loop:
    "import_rows E rows (0, 0, py_print Importing (py_print ReadingFrom s)) = (ic, ec, s1)"
    by (cases "import_rows E rows (0, 0, py_print Importing (py_print ReadingFrom s))") auto
  from import_rows_ext [OF loop] obtain evs where ev: "trace s1 = trace s @ evs" by auto
  show ?thesis
  proof (cases ending)
    case (Some e)
    with Opened loop ev csv_failed_run [of e s1] show ?thesis by (auto simp: load_csv_def)
  next
    case None
    obtain r s2 where cm: "db_exec E Commit s1 = (r, s2)" by (cases "db_exec E Commit s1") auto
    from db_exec_cases [OF cm] have t2: "trace s2 = trace s1 @ [Db Commit]" by simp
    show ?thesis
    proof (cases r)
      case None
      with \<open>ending = None\<close> Opened loop cm ev t2 report_ext [of E ic ec s2]
      show ?thesis by (auto simp: load_csv_def)
    next
      case (Some e)
      with \<open>ending = None\<close> Opened loop cm ev t2 csv_failed_run [of e s2]
      show ?thesis by (auto simp: load_csv_def)
    qed
  qed
qed

lemma events_since_ext: "trace s' = trace s @ evs \<Longrightarrow> events_since s s' = evs"
  by (simp add: events_since_def)

lemma load_csv_after_loop:
  assumes "csv E = Opened rows None"
    and "import_rows E rows (0, 0, py_print Importing (py_print ReadingFrom s)) = (ic, ec, s1)"
  shows "\<exists>evs. trace (snd (load_csv E s)) = trace s1 @ Db Commit # evs \<and>
               commits_of evs = 0 \<and> inserts_of evs = []"
proof -
  obtain r s2 where cm: "db_exec E Commit s1 = (r, s2)" by (cases "db_exec E Commit s1") auto
  from db_exec_cases [OF cm] have t2: "trace s2 = trace s1 @ [Db Commit]" by simp
  show ?thesis
  proof (cases r)
    case None
    with assms cm have "load_csv E s = report E ic ec s2" by (simp add: load_csv_def)
    with t2 report_ext [of E ic ec s2] show ?thesis by auto
  next
    case (Some e)
    with assms cm have "load_csv E s = csv_failed e s2" by (simp add: load_csv_def)
    with t2 csv_failed_run [of e s2] show ?thesis by auto
  qed
qed

subsection \<open>One iteration and the loop on any database\<close>

lemma import_row_cases:
  assumes "import_row E row (ic, ec, s) = (ic', ec', s')"
  shows "case convert_row (pyfloat E) row of
           Inl e \<Rightarrow> ic' = ic \<and> ec' = ec + 1 \<and> table s' = table s
         | Inr t \<Rightarrow>
             (if db_ok E (length (trace s)) (Insert t) (table s)
              then ic' = ic + 1 \<and> ec \<le> ec' \<and> ec' \<le> ec + 1 \<and> table s' = table s @ [t]
              else ic' = ic \<and> ec' = ec + 1 \<and> table s' = table s)"
  using assms
  by (auto simp: import_row_def try_row_def db_exec_def effect_def
      split: if_splits sum.splits)

lemma import_row_attempt:
  assumes "import_row E row (ic, ec, s) = (ic', ec', s')"
  shows "inserts_of (trace s') =
           inserts_of (trace s) @
           (case convert_row (pyfloat E) row of Inl e \<Rightarrow> [] | Inr t \<Rightarrow> [t])"
  using assms
  by (auto simp: import_row_def try_row_def db_exec_def split: if_splits sum.splits)

lemma import_rows_attempts:
  "import_rows E rows (ic, ec, s) = (ic', ec', s') \<Longrightarrow>
     inserts_of (trace s') = inserts_of (trace s) @ converted (pyfloat E) rows"
proof (induction rows arbitrary: ic ec s)
  case Nil
  then show ?case by (simp add: converted_def)
next
  case (Cons row rows)
  obtain ic1 ec1 s1 where step: "import_row E row (ic, ec, s) = (ic1, ec1, s1)"
    by (cases "import_row E row (ic, ec, s)") auto
  with Cons.prems have "import_rows E rows (ic1, ec1, s1) = (ic', ec', s')" by simp
  from Cons.IH [OF this] import_row_attempt [OF step] show ?case
    by (simp add: converted_Cons)
qed

lemma import_rows_since:
  assumes "import_rows E rows (ic, ec, s) = (ic', ec', s')"
  shows "inserts_of (events_since s s') = converted (pyfloat E) rows"
proof -
  from import_rows_ext [OF assms] obtain evs where ev: "trace s' = trace s @ evs" by blast
  with import_rows_attempts [OF assms] have "inserts_of evs = converted (pyfloat E) rows"
    by simp
  with events_since_ext [OF ev] show ?thesis by simp
qed

lemma import_rows_added:
  "import_rows E rows (ic, ec, s) = (ic', ec', s') \<Longrightarrow>
     \<exists>added. table s' = table s @ added \<and> ic' = ic + length added \<and>
             subseq added (converted (pyfloat E) rows) \<and>
             subseq (filter (accepted E) (converted (pyfloat E) rows)) added \<and>
             ec + length rows \<le> ec' + length added \<and> ec \<le> ec'"
proof (induction rows arbitrary: ic ec s)
  case Nil
  then show ?case by (simp add: converted_def)
next
  case (Cons row rows)
  obtain ic1 ec1 s1 where step: "import_row E row (ic, ec, s) = (ic1, ec1, s1)"
    by (cases "import_row E row (ic, ec, s)") auto
  with Cons.prems have "import_rows E rows (ic1, ec1, s1) = (ic', ec', s')" by simp
  from Cons.IH [OF this] obtain added where
    tb: "table s' = table s1 @ added" and cnt: "ic' = ic1 + length added"
    and sub: "subseq added (converted (pyfloat E) rows)"
    and acc: "subseq (filter (accepted E) (converted (pyfloat E) rows)) added"
    and err: "ec1 + length rows \<le> ec' + length added" and mono: "ec1 \<le> ec'"
    by blast
  note one = import_row_cases [OF step]
  show ?case
  proof (cases "convert_row (pyfloat E) row")
    case (Inl e)
    with one have "ic1 = ic" "ec1 = ec + 1" "table s1 = table s" by simp_all
    with Inl tb cnt sub acc err mono show ?thesis
      by (intro exI [of _ added]) (simp add: converted_Cons)
  next
    case (Inr t)
    show ?thesis
    proof (cases "db_ok E (length (trace s)) (Insert t) (table s)")
      case True
      with one Inr have s1: "ic1 = ic + 1" "ec \<le> ec1" "table s1 = table s @ [t]"
        by simp_all
      have "subseq (filter (accepted E) (t # converted (pyfloat E) rows)) (t # added)"
        using acc by (cases "accepted E t") auto
      with Inr s1 tb cnt sub err mono show ?thesis
        by (intro exI [of _ "t # added"]) (simp add: converted_Cons)
    next
      case False
      with one Inr have s1: "ic1 = ic" "ec1 = ec + 1" "table s1 = table s" by simp_all
      from False have "\<not> accepted E t" by (auto simp: accepted_def)
      with Inr s1 tb cnt sub acc err mono show ?thesis
        by (intro exI [of _ added]) (auto simp: converted_Cons)
    qed
  qed
qed


lemma unparseable_count:
  "length (filter (amount_unparseable pf) rows) + length (converted pf rows) \<le> length rows"
proof (induction rows)
  case Nil
  then show ?case by (simp add: converted_def)
next
  case (Cons row rows)
  show ?case
  proof (cases "amount_unparseable pf row")
    case True
    from amount_unparseable_fails [OF True] obtain e where "convert_row pf row = Inl e"
      by blast
    with True Cons show ?thesis by (simp add: converted_Cons)
  next
    case False
    with Cons show ?thesis by (cases "convert_row pf row") (simp_all add: converted_Cons)
  qed
qed

lemma converted_well_formed_filter:
  "converted (pyfloat E) (filter (well_formed E) rows) =
     filter (accepted E) (converted (pyfloat E) rows)"
proof (induction rows)
  case Nil
  then show ?case by (simp add: converted_def)
next
  case (Cons row rows)
  then show ?case
    by (cases "convert_row (pyfloat E) row") (simp_all add: converted_Cons well_formed_def)
qed


lemma import_rows_static:
  assumes "\<forall>n t tbl. db_ok E n (Insert t) tbl = P t"
  shows "import_rows E rows (ic, ec, s) = (ic', ec', s') \<Longrightarrow>
     table s' = table s @ filter P (converted (pyfloat E) rows) \<and>
     ic' = ic + length (filter P (converted (pyfloat E) rows))"
proof (induction rows arbitrary: ic ec s)
  case Nil
  then show ?case by (simp add: converted_def)
next
  case (Cons row rows)
  obtain ic1 ec1 s1 where step: "import_row E row (ic, ec, s) = (ic1, ec1, s1)"
    by (cases "import_row E row (ic, ec, s)") auto
  with Cons.prems have "import_rows E rows (ic1, ec1, s1) = (ic', ec', s')" by simp
  note ih = Cons.IH [OF this]
  from import_row_cases [OF step] assms ih show ?case
    by (cases "convert_row (pyfloat E) row") (auto simp: converted_Cons)
qed

lemma converted_append: "converted pf (xs @ ys) = converted pf xs @ converted pf ys"
  by (simp add: converted_def)

subsection \<open>Inverting the conversion of a row\<close>

lemma and_then_Inr: "and_then r f = Inr y \<longleftrightarrow> (\<exists>x. r = Inr x \<and> f x = Inr y)"
  by (cases r) (simp_all add: and_then_def)

lemma lookup_Inr: "lookup row k = Inr v \<longleftrightarrow> row k = Some v"
  by (simp add: lookup_def split: option.splits)

lemma py_float_Inr: "py_float pf v = Inr x \<longleftrightarrow> (\<exists>s. v = Some s \<and> pf s = Some x)"
  by (simp add: py_float_def split: option.splits)

lemma conv_balance_after_Inr:
  "conv_balance_after pf v = Inr b \<longleftrightarrow>
     (v = Some '''' \<and> b = None \<or>
      (\<exists>s x. v = Some s \<and> s \<noteq> '''' \<and> pf s = Some x \<and> b = Some x))"
  by (auto simp: conv_balance_after_def and_then_Inr py_float_Inr)

lemma convert_row_Inr:
  "convert_row pf row = Inr t \<Longrightarrow>
     \<exists>ir rf nt ba am.
        row ''is_recurring'' = Some ir \<and> row ''recurring_frequency'' = Some rf \<and>
        row ''notes'' = Some nt \<and> row ''balance_after'' = Some ba \<and>
        row ''amount'' = Some am \<and>
        is_recurring t = conv_is_recurring ir \<and> recurring_frequency t = conv_nullable rf \<and>
        notes_col t = conv_nullable nt \<and> conv_balance_after pf ba = Inr (balance_after t) \<and>
        py_float pf am = Inr (amount t)"
  unfolding convert_row_def and_then_Inr lookup_Inr
  by (elim exE conjE) clarsimp

lemma and_then_Inr_ex:
  "(\<exists>y. and_then r f = Inr y) \<longleftrightarrow> (\<exists>x. r = Inr x \<and> (\<exists>y. f x = Inr y))"
  by (cases r) (simp_all add: and_then_def)

lemma lookup_Inr_ex:
  "(\<exists>x. lookup row k = Inr x \<and> P x) \<longleftrightarrow> (\<exists>x. row k = Some x \<and> P x)"
  by (simp add: lookup_Inr)

lemma conv_balance_after_ok:
  "(\<exists>b. conv_balance_after pf v = Inr b) \<longleftrightarrow>
     (\<exists>s. v = Some s \<and> (s = '''' \<or> pf s \<noteq> None))"
  by (auto simp: conv_balance_after_Inr)

lemma py_float_ok: "(\<exists>x. py_float pf v = Inr x) \<longleftrightarrow> (\<exists>s. v = Some s \<and> pf s \<noteq> None)"
  by (auto simp: py_float_Inr)

lemma convert_row_iff:
  "(\<exists>t. convert_row pf row = Inr t) \<longleftrightarrow> row_convertible pf row"
  unfolding convert_row_def and_then_Inr_ex lookup_Inr_ex
  by (simp add: conv_balance_after_ok py_float_ok row_convertible_def columns_def
      split: option.splits) blast

lemma well_formed_iff:
  "well_formed E row \<longleftrightarrow>
     row_convertible (pyfloat E) row \<and>
     (\<forall>t. convert_row (pyfloat E) row = Inr t \<longrightarrow> accepted E t)"
  unfolding convert_row_iff [symmetric]
  by (cases "convert_row (pyfloat E) row") (simp_all add: well_formed_def)

subsection \<open>The sample rows\<close>

lemma sample_row_converts:
  "sample_float amt = Some x \<Longrightarrow>
     convert_row sample_float (sample_row tid amt) = Inr (sample_txn tid x)"
  by (simp add: convert_row_def and_then_def lookup_def sample_row_def row_of_def
      conv_balance_after_def conv_is_recurring_def conv_nullable_def py_float_def sample_txn_def)

lemma sample_row_fails:
  "sample_float amt = None \<Longrightarrow> convert_row sample_float (sample_row tid amt) = Inl ValueError"
  by (simp add: convert_row_def and_then_def lookup_def sample_row_def row_of_def
      conv_balance_after_def conv_is_recurring_def conv_nullable_def py_float_def)

lemma converted_replicate:
  "convert_row pf row = Inr t \<Longrightarrow> converted pf (replicate n row) = replicate n t"
  by (induction n) (simp_all add: converted_def)

lemma sample_env_sel:
  "connect_ok (sample_env src resp) = True"
  "announce_ok (sample_env src resp) = True"
  "db_ok (sample_env src resp) = (\<lambda>n q tbl. True)"
  "order_by_date (sample_env src resp) = (\<lambda>tbl. tbl)"
  "response (sample_env src resp) = resp"
  "csv (sample_env src resp) = src"
  "pyfloat (sample_env src resp) = sample_float"
  by (simp_all add: sample_env_def)

lemma sample_env_accepts: "accepted (sample_env src resp) t"
  by (simp add: accepted_def sample_env_sel)

subsection \<open>Runs on a database that executes every call but INSERT\<close>

lemma healthyD:
  assumes "db_healthy E"
  shows "db_ok E n Count tbl" "db_ok E n Truncate tbl" "db_ok E n Commit tbl"
    "db_ok E n SelectTop5 tbl" "db_ok E n CloseConn tbl"
  using assms by (simp_all add: db_healthy_def)

lemma db_exec_healthy:
  assumes "db_healthy E"
  shows "db_exec E Count s = (None, emit (Db Count) s)"
    "db_exec E Truncate s = (None, emit (Db Truncate) (s\<lparr>table := []\<rparr>))"
    "db_exec E Commit s = (None, emit (Db Commit) s)"
    "db_exec E SelectTop5 s = (None, emit (Db SelectTop5) s)"
    "db_exec E CloseConn s = (None, emit (Db CloseConn) s)"
  using healthyD [OF assms] by (simp_all add: db_exec_def effect_def)

lemma load_csv_unreadable:
  assumes "db_healthy E" and "\<not> csv_readable (csv E)"
  shows "fst (load_csv E s) = SysExit 1"
proof (cases "csv E")
  case (OpenRaises e)
  then show ?thesis using csv_failed_run [of e s] by (simp add: load_csv_def)
next
  case (Opened rows ending)
  with assms(2) obtain e where e: "ending = Some e"
    by (cases ending) (auto simp: csv_readable_def)
  obtain ic ec s1 where loop:
    "import_rows E rows (0, 0, py_print Importing (py_print ReadingFrom s)) = (ic, ec, s1)"
    by (cases "import_rows E rows (0, 0, py_print Importing (py_print ReadingFrom s))") auto
  with Opened e csv_failed_run [of e s1] show ?thesis by (simp add: load_csv_def)
qed

lemma load_csv_readable:
  assumes h: "db_healthy E" and c: "csv E = Opened rows None"
    and loop: "import_rows E rows (0, 0, py_print Importing (py_print ReadingFrom s)) = (ic, ec, s1)"
  shows "fst (load_csv E s) = Returned"
    and "table (snd (load_csv E s)) = table s1"
    and "trace (snd (load_csv E s)) =
           trace s1 @ [Db Commit, Print Rule, Print Completed, Print (Imported ic)] @
           (if ec > 0 then [Print (Errors ec)] else []) @
           [Print Rule, Db SelectTop5, Print SampleHeader, Print Dashes] @
           map (\<lambda>r. Print (sample_line r)) (take 5 (order_by_date E (table s1)))"
proof -
  have eq: "load_csv E s = report E ic ec (emit (Db Commit) s1)"
    using c loop by (simp add: load_csv_def db_exec_healthy [OF h])
  have sel: "\<forall>n. db_ok E n SelectTop5 (table (emit (Db Commit) s1))"
    using healthyD [OF h] by simp
  from report_run [OF sel, of ic ec] eq
  show "fst (load_csv E s) = Returned" "table (snd (load_csv E s)) = table s1"
    "trace (snd (load_csv E s)) =
           trace s1 @ [Db Commit, Print Rule, Print Completed, Print (Imported ic)] @
           (if ec > 0 then [Print (Errors ec)] else []) @
           [Print Rule, Db SelectTop5, Print SampleHeader, Print Dashes] @
           map (\<lambda>r. Print (sample_line r)) (take 5 (order_by_date E (table s1)))"
    by simp_all
qed

lemma load_csv_outcome:
  assumes "db_healthy E"
  shows "fst (load_csv E s) = (if csv_readable (csv E) then Returned else SysExit 1)"
proof (cases "csv_readable (csv E)")
  case False
  with load_csv_unreadable [OF assms] show ?thesis by simp
next
  case True
  then obtain rows where c: "csv E = Opened rows None"
    by (auto simp: csv_readable_def split: csv_source.splits option.splits)
  obtain ic ec s1 where loop:
    "import_rows E rows (0, 0, py_print Importing (py_print ReadingFrom s)) = (ic, ec, s1)"
    by (cases "import_rows E rows (0, 0, py_print Importing (py_print ReadingFrom s))") auto
  from load_csv_readable(1) [OF assms c loop] True show ?thesis by simp
qed

lemma import_csv_data_empty:
  assumes "db_healthy E" and "table s = []"
  shows "import_csv_data E s = load_csv E (emit (Db Count) s)"
  using assms by (simp add: import_csv_data_def db_exec_healthy)

lemma import_csv_data_yes:
  assumes "db_healthy E" and "table s \<noteq> []" and "response E = Some r" and "lower r = ''yes''"
  shows "import_csv_data E s =
           load_csv E (py_print Cleared (emit (Db Commit) (emit (Db Truncate)
             ((emit Input (py_print (TableHas (length (table s))) (emit (Db Count) s)))
                \<lparr>table := []\<rparr>))))"
  using assms by (simp add: import_csv_data_def db_exec_healthy Let_def)

lemma import_csv_data_declined:
  assumes "db_ok E (length (trace s)) Count (table s)" and "table s \<noteq> []"
    and "response E = Some r" and "lower r \<noteq> ''yes''"
  shows "import_csv_data E s =
           (Returned, py_print Cancelled (emit Input
              (py_print (TableHas (length (table s))) (emit (Db Count) s))))"
  using assms by (simp add: import_csv_data_def db_exec_def effect_def Let_def)

lemma import_csv_data_eof:
  assumes "db_healthy E" and "table s \<noteq> []" and "response E = None"
  shows "fst (import_csv_data E s) = Uncaught EOFError"
  using assms by (simp add: import_csv_data_def db_exec_healthy Let_def)

lemma import_csv_data_outcome:
  assumes "db_healthy E"
  shows "fst (import_csv_data E s) =
           (if table s = [] then (if csv_readable (csv E) then Returned else SysExit 1)
            else (case response E of
                    None \<Rightarrow> Uncaught EOFError
                  | Some r \<Rightarrow> (if lower r = ''yes''
                               then (if csv_readable (csv E) then Returned else SysExit 1)
                               else Returned)))"
proof (cases "table s = []")
  case True
  with import_csv_data_empty [OF assms True] load_csv_outcome [OF assms] show ?thesis by simp
next
  case False
  show ?thesis
  proof (cases "response E")
    case None
    with False import_csv_data_eof [OF assms False None] show ?thesis by simp
  next
    case (Some r)
    show ?thesis
    proof (cases "lower r = ''yes''")
      case True
      with False Some import_csv_data_yes [OF assms False Some True] load_csv_outcome [OF assms]
      show ?thesis by simp
    next
      case no: False
      from healthyD(1) [OF assms] have "db_ok E (length (trace s)) Count (table s)" .
      from import_csv_data_declined [OF this False Some no] False Some no
      show ?thesis by simp
    qed
  qed
qed

section \<open>The claims\<close>

subsection \<open>C3: the conversion of the fields\<close>

text \<open>
  C3. A row is converted exactly when all its columns are there and \<open>float\<close> accepts its
  \<open>amount\<close> cell and its \<open>balance_after\<close> cell unless that one is empty. In every row
  that is converted, an empty \<open>is_recurring\<close>, \<open>recurring_frequency\<close>, \<open>notes\<close> or
  \<open>balance_after\<close> cell becomes null; the cell \<open>True\<close> of \<open>is_recurring\<close> becomes 1
  and any other non-empty cell becomes 0; a non-empty \<open>balance_after\<close> cell and the
  \<open>amount\<close> cell become the numbers that \<open>float\<close> gives for them.
\<close>

theorem field_conversion:
  "((\<exists>t. convert_row pf row = Inr t) \<longleftrightarrow> row_convertible pf row) \<and>
   (\<forall>t. convert_row pf row = Inr t \<longrightarrow>
      (row ''is_recurring'' = Some (Some '''') \<longrightarrow> is_recurring t = None) \<and>
      (row ''is_recurring'' = Some (Some ''True'') \<longrightarrow> is_recurring t = Some 1) \<and>
      (\<forall>v. row ''is_recurring'' = Some (Some v) \<and> v \<noteq> '''' \<and> v \<noteq> ''True''
           \<longrightarrow> is_recurring t = Some 0) \<and>
      (row ''recurring_frequency'' = Some (Some '''') \<longrightarrow> recurring_frequency t = None) \<and>
      (row ''notes'' = Some (Some '''') \<longrightarrow> notes_col t = None) \<and>
      (row ''balance_after'' = Some (Some '''') \<longrightarrow> balance_after t = None) \<and>
      (\<forall>v. row ''balance_after'' = Some (Some v) \<and> v \<noteq> ''''
           \<longrightarrow> (\<exists>x. pf v = Some x \<and> balance_after t = Some x)) \<and>
      (\<exists>a x. row ''amount'' = Some (Some a) \<and> pf a = Some x \<and> amount t = x))"
proof (intro conjI allI impI)
  show "(\<exists>t. convert_row pf row = Inr t) \<longleftrightarrow> row_convertible pf row"
    by (rule convert_row_iff)
next
  fix t
  assume conv: "convert_row pf row = Inr t"
  from convert_row_Inr [OF conv] obtain ir rf nt ba am where
    k: "row ''is_recurring'' = Some ir" "row ''recurring_frequency'' = Some rf"
       "row ''notes'' = Some nt" "row ''balance_after'' = Some ba" "row ''amount'' = Some am"
    and ir: "is_recurring t = conv_is_recurring ir"
    and rf: "recurring_frequency t = conv_nullable rf"
    and nt: "notes_col t = conv_nullable nt"
    and ba: "conv_balance_after pf ba = Inr (balance_after t)"
    and am: "py_float pf am = Inr (amount t)"
    by blast
  {
    assume "row ''is_recurring'' = Some (Some '''')"
    with k ir show "is_recurring t = None" by (auto simp: conv_is_recurring_def)
  }
  {
    assume "row ''is_recurring'' = Some (Some ''True'')"
    with k ir show "is_recurring t = Some 1" by (auto simp: conv_is_recurring_def)
  }
  {
    fix v
    assume "row ''is_recurring'' = Some (Some v) \<and> v \<noteq> '''' \<and> v \<noteq> ''True''"
    with k ir show "is_recurring t = Some 0" by (auto simp: conv_is_recurring_def)
  }
  {
    assume "row ''recurring_frequency'' = Some (Some '''')"
    with k rf show "recurring_frequency t = None" by (auto simp: conv_nullable_def)
  }
  {
    assume "row ''notes'' = Some (Some '''')"
    with k nt show "notes_col t = None" by (auto simp: conv_nullable_def)
  }
  {
    assume "row ''balance_after'' = Some (Some '''')"
    with k ba show "balance_after t = None" by (auto simp: conv_balance_after_Inr)
  }
  {
    fix v
    assume "row ''balance_after'' = Some (Some v) \<and> v \<noteq> ''''"
    with k ba show "\<exists>x. pf v = Some x \<and> balance_after t = Some x"
      by (auto simp: conv_balance_after_Inr)
  }
  from k am show "\<exists>a x. row ''amount'' = Some (Some a) \<and> pf a = Some x \<and> amount t = x"
    by (auto simp: py_float_Inr)
qed

text \<open>
  The sample row, with \<open>True\<close> in \<open>is_recurring\<close> and the three other cells empty.
\<close>

theorem field_conversion_witness:
  "row_convertible sample_float (sample_row ''T1'' ''40'') \<and>
   convert_row sample_float (sample_row ''T1'' ''40'') = Inr (sample_txn ''T1'' 40) \<and>
   sample_row ''T1'' ''40'' ''is_recurring'' = Some (Some ''True'') \<and>
   is_recurring (sample_txn ''T1'' 40) = Some 1 \<and>
   sample_row ''T1'' ''40'' ''notes'' = Some (Some '''') \<and>
   notes_col (sample_txn ''T1'' 40) = None \<and>
   sample_row ''T1'' ''40'' ''balance_after'' = Some (Some '''') \<and>
   balance_after (sample_txn ''T1'' 40) = None \<and>
   amount (sample_txn ''T1'' 40) = 40"
proof -
  have c: "convert_row sample_float (sample_row ''T1'' ''40'') = Inr (sample_txn ''T1'' 40)"
    by (rule sample_row_converts) (simp add: sample_float_def)
  have cells: "sample_row ''T1'' ''40'' ''is_recurring'' = Some (Some ''True'')"
    "sample_row ''T1'' ''40'' ''notes'' = Some (Some '''')"
    "sample_row ''T1'' ''40'' ''balance_after'' = Some (Some '''')"
    "sample_row ''T1'' ''40'' ''amount'' = Some (Some ''40'')"
    by (simp_all add: sample_row_def row_of_def)
  from field_conversion [of sample_float "sample_row ''T1'' ''40''"] c cells show ?thesis
    by (auto simp: sample_float_def)
qed

subsection \<open>C6: when commits are issued\<close>

text \<open>
  C6. While the rows of a file are read, \<open>imported_count\<close> is, after every row, the
  number of rows the database has added to the table, and the number of commits issued so
  far is that number divided by 100: a commit is issued exactly when the number of rows
  successfully imported reaches a multiple of 100, and a row that fails, in its conversion
  or in its INSERT, issues none and does not advance the count. When the file ends,
  exactly one more commit is issued, and none after it; when reading the file raises
  instead, no further commit is issued.
\<close>

theorem commit_cadence:
  "(\<forall>k. case import_rows E (take k rows)
               (0, 0, py_print Importing (py_print ReadingFrom s)) of
         (ic, ec, s') \<Rightarrow>
           length (table s') = length (table s) + ic \<and>
           commits_of (events_since s s') = ic div 100) \<and>
   (csv E = Opened rows None \<longrightarrow>
      (case import_rows E rows (0, 0, py_print Importing (py_print ReadingFrom s)) of
         (ic, ec, s') \<Rightarrow>
           commits_of (events_since s (snd (load_csv E s))) = ic div 100 + 1)) \<and>
   (\<forall>e. csv E = Opened rows (Some e) \<longrightarrow>
      (case import_rows E rows (0, 0, py_print Importing (py_print ReadingFrom s)) of
         (ic, ec, s') \<Rightarrow>
           commits_of (events_since s (snd (load_csv E s))) = ic div 100))"
proof -
  let ?s0 = "py_print Importing (py_print ReadingFrom s)"
  have loop: "commits_of (events_since s s') = ic div 100"
    and grow: "length (table s') = length (table s) + ic"
    if run: "import_rows E rs (0, 0, ?s0) = (ic, ec, s')" for rs ic ec s'
  proof -
    from import_rows_ext [OF run] obtain evs where ev: "trace s' = trace ?s0 @ evs" by blast
    from import_rows_commits [OF run] ev have "commits_of evs = ic div 100" by simp
    moreover from ev have "events_since s s' = [Print ReadingFrom, Print Importing] @ evs"
      by (intro events_since_ext) simp
    ultimately show "commits_of (events_since s s') = ic div 100" by simp
    from import_rows_added [OF run] obtain added where
      "table s' = table ?s0 @ added" "ic = 0 + length added" by blast
    then show "length (table s') = length (table s) + ic" by simp
  qed
  have first: "\<forall>k. case import_rows E (take k rows) (0, 0, ?s0) of
                 (ic, ec, s') \<Rightarrow>
                   length (table s') = length (table s) + ic \<and>
                   commits_of (events_since s s') = ic div 100"
  proof
    fix k
    obtain ic ec s' where run: "import_rows E (take k rows) (0, 0, ?s0) = (ic, ec, s')"
      by (cases "import_rows E (take k rows) (0, 0, ?s0)") auto
    from loop [OF run] grow [OF run] run show
      "case import_rows E (take k rows) (0, 0, ?s0) of
         (ic, ec, s') \<Rightarrow>
           length (table s') = length (table s) + ic \<and>
           commits_of (events_since s s') = ic div 100"
      by simp
  qed
  obtain ic ec s1 where run: "import_rows E rows (0, 0, ?s0) = (ic, ec, s1)"
    by (cases "import_rows E rows (0, 0, ?s0)") auto
  from import_rows_ext [OF run] obtain evs where ev: "trace s1 = trace ?s0 @ evs" by blast
  have second: "commits_of (events_since s (snd (load_csv E s))) = ic div 100 + 1"
    if c: "csv E = Opened rows None"
  proof -
    from load_csv_after_loop [OF c run] obtain evs2 where
      fin: "trace (snd (load_csv E s)) = trace s1 @ Db Commit # evs2"
      and z: "commits_of evs2 = 0"
      by blast
    from fin ev have "events_since s (snd (load_csv E s)) =
        events_since s s1 @ Db Commit # evs2"
      by (simp add: events_since_def)
    with loop [OF run] z show ?thesis by simp
  qed
  have third: "commits_of (events_since s (snd (load_csv E s))) = ic div 100"
    if c: "csv E = Opened rows (Some e)" for e
  proof -
    from c run have "load_csv E s = csv_failed e s1" by (simp add: load_csv_def)
    with csv_failed_run [of e s1] obtain m where
      fin: "trace (snd (load_csv E s)) = trace s1 @ [Print m]" by auto
    from fin ev have "events_since s (snd (load_csv E s)) = events_since s s1 @ [Print m]"
      by (simp add: events_since_def)
    with loop [OF run] show ?thesis by simp
  qed
  from first second third run show ?thesis by simp
qed

text \<open>
  A file of 99 good rows, a row the database rejects, and one more good row. After 100
  rows 99 are imported and no commit has been issued; the commit of the cadence comes with
  the last row, and the commit of the end of the file follows it.
\<close>

theorem commit_cadence_witness:
  "csv (strict_env (Opened (replicate 99 (sample_row ''T1'' ''40'') @
          [sample_row ''DUP'' ''40'', sample_row ''T1'' ''40'']) None) None) =
     Opened (replicate 99 (sample_row ''T1'' ''40'') @
          [sample_row ''DUP'' ''40'', sample_row ''T1'' ''40'']) None \<and>
   (case import_rows
           (strict_env (Opened (replicate 99 (sample_row ''T1'' ''40'') @
              [sample_row ''DUP'' ''40'', sample_row ''T1'' ''40'']) None) None)
           (take 100 (replicate 99 (sample_row ''T1'' ''40'') @
              [sample_row ''DUP'' ''40'', sample_row ''T1'' ''40'']))
           (0, 0, py_print Importing (py_print ReadingFrom \<lparr>table = [], trace = []\<rparr>)) of
      (ic, ec, s') \<Rightarrow>
        ic = 99 \<and> commits_of (events_since \<lparr>table = [], trace = []\<rparr> s') = 0) \<and>
   commits_of (events_since \<lparr>table = [], trace = []\<rparr>
     (snd (load_csv
        (strict_env (Opened (replicate 99 (sample_row ''T1'' ''40'') @
           [sample_row ''DUP'' ''40'', sample_row ''T1'' ''40'']) None) None)
        \<lparr>table = [], trace = []\<rparr>))) = 2"
proof -
  let ?good = "sample_row ''T1'' ''40''"
  let ?dup = "sample_row ''DUP'' ''40''"
  let ?rows = "replicate 99 ?good @ [?dup, ?good]"
  let ?E = "strict_env (Opened ?rows None) None"
  let ?s = "\<lparr>table = [], trace = []\<rparr> :: int state"
  let ?start = "py_print Importing (py_print ReadingFrom ?s)"
  let ?P = "\<lambda>t :: int txn. transaction_id t \<noteq> Some ''DUP''"
  have c: "csv ?E = Opened ?rows None" by (simp add: strict_env_def sample_env_sel)
  have f: "pyfloat ?E = sample_float" by (simp add: strict_env_def sample_env_sel)
  have st: "\<forall>n t tbl. db_ok ?E n (Insert t) tbl = ?P t" by (simp add: strict_env_def)
  have cg: "convert_row sample_float ?good = Inr (sample_txn ''T1'' 40)"
    by (rule sample_row_converts) (simp add: sample_float_def)
  have cd: "convert_row sample_float ?dup = Inr (sample_txn ''DUP'' 40)"
    by (rule sample_row_converts) (simp add: sample_float_def)
  have pg: "?P (sample_txn ''T1'' 40)" and pd: "\<not> ?P (sample_txn ''DUP'' 40)"
    by (simp_all add: sample_txn_def)
  have tk: "take 100 ?rows = replicate 99 ?good @ [?dup]" by simp
  have l1: "length (filter ?P (converted sample_float (take 100 ?rows))) = 99"
    unfolding tk
    by (simp add: converted_append converted_replicate [OF cg] converted_Cons cd pg pd)
      (simp add: converted_def)
  have l2: "length (filter ?P (converted sample_float ?rows)) = 100"
    by (simp add: converted_append converted_replicate [OF cg] converted_Cons cd cg pg pd)
      (simp add: converted_def)
  obtain ic1 ec1 s1 where r1: "import_rows ?E (take 100 ?rows) (0, 0, ?start) = (ic1, ec1, s1)"
    by (cases "import_rows ?E (take 100 ?rows) (0, 0, ?start)") auto
  obtain ic2 ec2 s2 where r2: "import_rows ?E ?rows (0, 0, ?start) = (ic2, ec2, s2)"
    by (cases "import_rows ?E ?rows (0, 0, ?start)") auto
  from import_rows_static [OF st r1]
  have "ic1 = 0 + length (filter ?P (converted (pyfloat ?E) (take 100 ?rows)))" by blast
  then have i1: "ic1 = 99" unfolding f l1 by simp
  from import_rows_static [OF st r2]
  have "ic2 = 0 + length (filter ?P (converted (pyfloat ?E) ?rows))" by blast
  then have i2: "ic2 = 100" unfolding f l2 by simp
  note cad = commit_cadence [where E = ?E and rows = ?rows and s = ?s]
  from cad [THEN conjunct1, THEN spec, of 100]
  have "case (ic1, ec1, s1) of
         (ic, ec, s') \<Rightarrow>
           length (table s') = length (table ?s) + ic \<and>
           commits_of (events_since ?s s') = ic div 100"
    unfolding r1 .
  with i1 have a: "commits_of (events_since ?s s1) = 0" by simp
  from cad c r2 i2 have b: "commits_of (events_since ?s (snd (load_csv ?E ?s))) = 2"
    by simp
  from a b c r1 i1 show ?thesis by simp
qed

subsection \<open>C7: exit codes\<close>

text \<open>
  C7, as stated, fails in both directions. The connection is made and the file exists, yet
  reading it raises: the handler of \<open>Exception\<close> exits with code 1. And the file is
  missing, yet the operator declines at the prompt: the file is never opened and the run
  ends with code 0.
\<close>

theorem exit_codes_counterexample:
  "connect_ok (sample_env (Opened [] (Some IOFailure)) None) \<and>
   csv (sample_env (Opened [] (Some IOFailure)) None) \<noteq> OpenRaises FileNotFoundError \<and>
   fst (main (sample_env (Opened [] (Some IOFailure)) None) []) = 1 \<and>
   csv (sample_env (OpenRaises FileNotFoundError) (Some ''no'')) = OpenRaises FileNotFoundError \<and>
   fst (main (sample_env (OpenRaises FileNotFoundError) (Some ''no'')) [sample_txn ''T0'' 40]) = 0"
  by (simp add: sample_env_sel main_def import_csv_data_def load_csv_def csv_failed_def
      db_exec_def effect_def exit_code_def lower_def lower_char_def Let_def)

text \<open>
  C7, amended. On a database that executes every call other than INSERT, the exit code is
  0 when the connection is made and announced and either the operator declines at the
  prompt or the import goes ahead and the file is opened and read to its end; it is 1 in
  every other case: no connection, a connection that cannot be announced, end of input at
  the prompt, or an import that goes ahead on a file that is missing, cannot be opened or
  cannot be read to its end.
\<close>

theorem exit_codes:
  assumes "db_healthy E"
  shows "fst (main E tbl) =
           (if connect_ok E \<and> announce_ok E \<and>
               (if tbl = [] then csv_readable (csv E)
                else (case response E of
                        None \<Rightarrow> False
                      | Some r \<Rightarrow> lower r \<noteq> ''yes'' \<or> csv_readable (csv E)))
            then 0 else 1)"
proof (cases "connect_ok E \<and> announce_ok E")
  case False
  then show ?thesis by (auto simp: main_def Let_def)
next
  case True
  let ?s = "py_print Connected (py_print Rule (py_print Title (py_print Rule
              \<lparr>table = tbl, trace = []\<rparr>)))"
  obtain out s1 where run: "import_csv_data E ?s = (out, s1)"
    by (cases "import_csv_data E ?s") auto
  have code: "fst (main E tbl) = exit_code out"
    using True run by (simp add: main_def db_exec_healthy [OF assms])
  from import_csv_data_outcome [OF assms, of ?s] run
  have "out = (if tbl = [] then (if csv_readable (csv E) then Returned else SysExit 1)
            else (case response E of
                    None \<Rightarrow> Uncaught EOFError
                  | Some r \<Rightarrow> (if lower r = ''yes''
                               then (if csv_readable (csv E) then Returned else SysExit 1)
                               else Returned)))"
    by simp
  with code True show ?thesis
    by (simp add: exit_code_def split: option.splits)
qed

text \<open>A missing file on an empty table: exit code 1.\<close>

theorem exit_codes_witness:
  "db_healthy (sample_env (OpenRaises FileNotFoundError) None) \<and>
   fst (main (sample_env (OpenRaises FileNotFoundError) None) []) = 1"
proof -
  have h: "db_healthy (sample_env (OpenRaises FileNotFoundError) None)"
    by (simp add: db_healthy_def sample_env_sel)
  from exit_codes [OF h, of "[]"] h show ?thesis
    by (simp add: sample_env_sel csv_readable_def)
qed

subsection \<open>C9: closing the connection\<close>

text \<open>
  Once the connection is announced, the run ends with \<open>conn.close()\<close>: its trace is the
  trace of \<open>import_csv_data\<close>, however that ended (a return, \<open>sys.exit\<close> or an uncaught
  exception), then the call that closes the connection, then the message that it is
  closed if that call did not raise.
\<close>

lemma main_closes:
  assumes "connect_ok E" and "announce_ok E"
  shows "\<exists>out s1.
           import_csv_data E (py_print Connected (py_print Rule (py_print Title
               (py_print Rule \<lparr>table = tbl, trace = []\<rparr>)))) = (out, s1) \<and>
           trace (snd (main E tbl)) =
             trace s1 @ Db CloseConn #
               (if db_ok E (length (trace s1)) CloseConn (table s1) then [Print Closed] else [])"
proof -
  let ?s = "py_print Connected (py_print Rule (py_print Title (py_print Rule
              \<lparr>table = tbl, trace = []\<rparr>)))"
  obtain out s1 where run: "import_csv_data E ?s = (out, s1)"
    by (cases "import_csv_data E ?s") auto
  have "trace (snd (main E tbl)) =
          trace s1 @ Db CloseConn #
            (if db_ok E (length (trace s1)) CloseConn (table s1) then [Print Closed] else [])"
    using assms run by (simp add: main_def db_exec_def)
  with run show ?thesis by blast
qed

text \<open>
  C9 fails on one exit path. The connection is made, and the print on line 29 that
  announces it raises (the console cannot encode the check mark): the exception is not a
  \<open>pyodbc.Error\<close>, so it leaves \<open>get_connection\<close>, and \<open>main\<close> has not yet entered
  its \<open>try\<close>. The run ends with code 1 after the three lines of the banner, and the
  connection it acquired is never closed.
\<close>

theorem connection_left_open:
  "connect_ok ((sample_env (Opened [] None) None)\<lparr>announce_ok := False\<rparr>) \<and>
   fst (main ((sample_env (Opened [] None) None)\<lparr>announce_ok := False\<rparr>) []) = 1 \<and>
   trace (snd (main ((sample_env (Opened [] None) None)\<lparr>announce_ok := False\<rparr>) [])) =
     [Print Rule, Print Title, Print Rule] \<and>
   Db CloseConn \<notin>
     set (trace (snd (main ((sample_env (Opened [] None) None)\<lparr>announce_ok := False\<rparr>) [])))"
  by (simp add: main_def sample_env_def)

subsection \<open>C5: the operator declines\<close>

text \<open>
  C5. When the table holds rows and the answer at the prompt is not \<open>yes\<close> in any
  capitalisation (the answer \<open>no\<close> is one), \<open>import_csv_data\<close> returns, the table is as
  it was, and all the function did is count the rows, say how many there are, prompt, and
  say that the import is cancelled: no INSERT and no TRUNCATE.
\<close>

theorem declined_import:
  assumes "table s \<noteq> []" and "db_ok E (length (trace s)) Count (table s)"
    and "response E = Some r" and "lower r \<noteq> ''yes''"
  shows "fst (import_csv_data E s) = Returned \<and>
         table (snd (import_csv_data E s)) = table s \<and>
         events_since s (snd (import_csv_data E s)) =
           [Db Count, Print (TableHas (length (table s))), Input, Print Cancelled]"
  using import_csv_data_declined [OF assms(2,1,3,4)]
  by (simp add: events_since_def)

theorem declined_import_witness:
  "table \<lparr>table = [sample_txn ''T0'' 40], trace = []\<rparr> \<noteq> [] \<and>
   response (sample_env (Opened [sample_row ''T1'' ''40''] None) (Some ''no'')) = Some ''no'' \<and>
   lower ''no'' \<noteq> ''yes'' \<and>
   fst (import_csv_data (sample_env (Opened [sample_row ''T1'' ''40''] None) (Some ''no''))
          \<lparr>table = [sample_txn ''T0'' 40], trace = []\<rparr>) = Returned \<and>
   table (snd (import_csv_data (sample_env (Opened [sample_row ''T1'' ''40''] None) (Some ''no''))
          \<lparr>table = [sample_txn ''T0'' 40], trace = []\<rparr>)) = [sample_txn ''T0'' 40]"
proof -
  let ?E = "sample_env (Opened [sample_row ''T1'' ''40''] None) (Some ''no'')"
  let ?s = "\<lparr>table = [sample_txn ''T0'' 40], trace = []\<rparr> :: int state"
  have a: "table ?s \<noteq> []" by simp
  have b: "db_ok ?E (length (trace ?s)) Count (table ?s)" by (simp add: sample_env_sel)
  have c: "response ?E = Some ''no''" by (simp add: sample_env_sel)
  have d: "lower ''no'' \<noteq> ''yes''" by (simp add: lower_def lower_char_def)
  from declined_import [OF a b c d] a c d show ?thesis by simp
qed

subsection \<open>C10: only \<open>yes\<close> clears the table\<close>

lemma import_csv_data_confirmed:
  assumes "table s \<noteq> []" and "db_ok E (length (trace s)) Count (table s)"
    and "response E = Some r" and "lower r = ''yes''"
  shows "\<exists>evs. trace (snd (import_csv_data E s)) =
           trace s @ [Db Count, Print (TableHas (length (table s))), Input, Db Truncate] @ evs"
proof -
  let ?s2 = "emit Input (py_print (TableHas (length (table s))) (emit (Db Count) s))"
  obtain r3 s3 where tr: "db_exec E Truncate ?s2 = (r3, s3)"
    by (cases "db_exec E Truncate ?s2") auto
  from db_exec_cases [OF tr] have t3: "trace s3 = trace ?s2 @ [Db Truncate]" by simp
  obtain r4 s4 where cm: "db_exec E Commit s3 = (r4, s4)"
    by (cases "db_exec E Commit s3") auto
  from db_exec_cases [OF cm] have t4: "trace s4 = trace s3 @ [Db Commit]" by simp
  from load_csv_ext [of E "py_print Cleared s4"] obtain evs where
    t5: "trace (snd (load_csv E (py_print Cleared s4))) = trace s4 @ Print Cleared # evs"
    by auto
  have run: "import_csv_data E s =
      (case r3 of Some e \<Rightarrow> (Uncaught e, s3)
       | None \<Rightarrow> (case r4 of Some e \<Rightarrow> (Uncaught e, s4)
                   | None \<Rightarrow> load_csv E (py_print Cleared s4)))"
    using assms tr cm
    by (simp add: import_csv_data_def db_exec_ok effect_def Let_def split: option.splits)
  show ?thesis
  proof (cases r3)
    case (Some e)
    with run t3 show ?thesis by simp
  next
    case None
    show ?thesis
    proof (cases r4)
      case (Some e)
      with None run t3 t4 show ?thesis by simp
    next
      case n4: None
      with None run t3 t4 t5 show ?thesis by simp
    qed
  qed
qed

text \<open>
  C10. At the prompt on a non-empty table, TRUNCATE is issued if and only if the answer,
  lowercased, is exactly \<open>yes\<close>. Any other answer cancels: the function returns and the
  table is as it was. The answers \<open>y\<close>, the empty line and \<open>yes\<close> between spaces are
  such answers; \<open>YES\<close> is not.
\<close>

theorem truncate_only_on_yes:
  assumes "table s \<noteq> []" and "db_ok E (length (trace s)) Count (table s)"
    and "response E = Some r"
  shows "(Db Truncate \<in> set (events_since s (snd (import_csv_data E s)))
            \<longleftrightarrow> lower r = ''yes'') \<and>
         (lower r \<noteq> ''yes'' \<longrightarrow>
            fst (import_csv_data E s) = Returned \<and>
            table (snd (import_csv_data E s)) = table s \<and>
            Print Cancelled \<in> set (events_since s (snd (import_csv_data E s)))) \<and>
         lower ''y'' \<noteq> ''yes'' \<and> lower '''' \<noteq> ''yes'' \<and> lower '' yes '' \<noteq> ''yes'' \<and>
         lower ''YES'' = ''yes''"
proof -
  have strings: "lower ''y'' \<noteq> ''yes'' \<and> lower '''' \<noteq> ''yes'' \<and>
      lower '' yes '' \<noteq> ''yes'' \<and> lower ''YES'' = ''yes''"
    by code_simp
  show ?thesis
  proof (cases "lower r = ''yes''")
    case True
    from import_csv_data_confirmed [OF assms True] obtain evs where
      "trace (snd (import_csv_data E s)) =
         trace s @ [Db Count, Print (TableHas (length (table s))), Input, Db Truncate] @ evs"
      by blast
    then have "events_since s (snd (import_csv_data E s)) =
         [Db Count, Print (TableHas (length (table s))), Input, Db Truncate] @ evs"
      by (rule events_since_ext)
    with True strings show ?thesis by simp
  next
    case False
    from import_csv_data_declined [OF assms(2,1,3) False]
    have "fst (import_csv_data E s) = Returned"
      "table (snd (import_csv_data E s)) = table s"
      "events_since s (snd (import_csv_data E s)) =
         [Db Count, Print (TableHas (length (table s))), Input, Print Cancelled]"
      by (simp_all add: events_since_def)
    with False strings show ?thesis by simp
  qed
qed

text \<open>The answer \<open>y\<close> on a table of one row.\<close>

theorem truncate_only_on_yes_witness:
  "table \<lparr>table = [sample_txn ''T0'' 40], trace = []\<rparr> \<noteq> [] \<and>
   response (sample_env (Opened [] None) (Some ''y'')) = Some ''y'' \<and>
   lower ''y'' \<noteq> ''yes'' \<and>
   Db Truncate \<notin> set (events_since \<lparr>table = [sample_txn ''T0'' 40], trace = []\<rparr>
     (snd (import_csv_data (sample_env (Opened [] None) (Some ''y''))
        \<lparr>table = [sample_txn ''T0'' 40], trace = []\<rparr>))) \<and>
   table (snd (import_csv_data (sample_env (Opened [] None) (Some ''y''))
        \<lparr>table = [sample_txn ''T0'' 40], trace = []\<rparr>)) = [sample_txn ''T0'' 40]"
proof -
  let ?E = "sample_env (Opened [] None) (Some ''y'')"
  let ?s = "\<lparr>table = [sample_txn ''T0'' 40], trace = []\<rparr> :: int state"
  have a: "table ?s \<noteq> []" by simp
  have b: "db_ok ?E (length (trace ?s)) Count (table ?s)" by (simp add: sample_env_sel)
  have c: "response ?E = Some ''y''" by (simp add: sample_env_sel)
  from truncate_only_on_yes [OF a b c] a c show ?thesis by simp
qed

subsection \<open>C8: the report\<close>

text \<open>
  C8, as stated, fails on a file of one good row: the run prints the imported count but no
  error count, and it displays one sample row, not five.
\<close>

theorem report_counterexample:
  "trace (snd (main (sample_env (Opened [sample_row ''T1'' ''40''] None) None) [])) =
     [Print Rule, Print Title, Print Rule, Print Connected, Db Count,
      Print ReadingFrom, Print Importing, Db (Insert (sample_txn ''T1'' 40)), Db Commit,
      Print Rule, Print Completed, Print (Imported 1), Print Rule,
      Db SelectTop5, Print SampleHeader, Print Dashes,
      Print (SampleRow (Some ''T1'') (Some ''2024-01-05'') (Some ''Groceries'') 40),
      Db CloseConn, Print Closed]"
proof -
  have conv: "convert_row sample_float (sample_row ''T1'' ''40'') = Inr (sample_txn ''T1'' 40)"
    by (rule sample_row_converts) (simp add: sample_float_def)
  show ?thesis
    by (simp add: sample_env_sel main_def import_csv_data_def load_csv_def import_row_def
        try_row_def conv report_def db_exec_def effect_def Let_def sample_line_def)
      (simp add: sample_txn_def)
qed

text \<open>
  C8, amended. The file is read to its end, the loop over its rows ends with the counters
  \<open>ic\<close> and \<open>ec\<close>, and the database executes the last commit and the SELECT and
  answers it with the rows of the table in some order (its order by date). Then, after the
  commit, the run prints the imported count \<open>ic\<close>, which is the number of rows the loop
  added to the table; it prints the error count \<open>ec\<close> only when it is positive; and it
  displays the first rows of the answer: five of them when the table holds five rows or
  more, all of them when it holds fewer, each a row of the table. The run then returns.
\<close>

theorem report_prints:
  assumes "csv E = Opened rows None"
    and "import_rows E rows (0, 0, py_print Importing (py_print ReadingFrom s)) = (ic, ec, s1)"
    and "db_ok E (length (trace s1)) Commit (table s1)"
    and "\<forall>n. db_ok E n SelectTop5 (table s1)"
    and "mset (order_by_date E (table s1)) = mset (table s1)"
  shows "fst (load_csv E s) = Returned \<and>
         events_since s1 (snd (load_csv E s)) =
           [Db Commit, Print Rule, Print Completed, Print (Imported ic)] @
           (if ec > 0 then [Print (Errors ec)] else []) @
           [Print Rule, Db SelectTop5, Print SampleHeader, Print Dashes] @
           map (\<lambda>r. Print (sample_line r)) (take 5 (order_by_date E (table s1))) \<and>
         length (table s1) = length (table s) + ic \<and>
         length (take 5 (order_by_date E (table s1))) = min 5 (length (table s1)) \<and>
         mset (take 5 (order_by_date E (table s1))) \<subseteq># mset (table s1)"
proof -
  have cm: "db_exec E Commit s1 = (None, emit (Db Commit) s1)"
    using assms(3) by (simp add: db_exec_def effect_def)
  have eq: "load_csv E s = report E ic ec (emit (Db Commit) s1)"
    using assms(1,2) cm by (simp add: load_csv_def)
  have sel: "\<forall>n. db_ok E n SelectTop5 (table (emit (Db Commit) s1))"
    using assms(4) by simp
  from report_run [OF sel, of ic ec] eq
  have out: "fst (load_csv E s) = Returned"
    and tr: "trace (snd (load_csv E s)) =
           trace s1 @ [Db Commit, Print Rule, Print Completed, Print (Imported ic)] @
           (if ec > 0 then [Print (Errors ec)] else []) @
           [Print Rule, Db SelectTop5, Print SampleHeader, Print Dashes] @
           map (\<lambda>r. Print (sample_line r)) (take 5 (order_by_date E (table s1)))"
    by simp_all
  from tr have ev: "events_since s1 (snd (load_csv E s)) =
           [Db Commit, Print Rule, Print Completed, Print (Imported ic)] @
           (if ec > 0 then [Print (Errors ec)] else []) @
           [Print Rule, Db SelectTop5, Print SampleHeader, Print Dashes] @
           map (\<lambda>r. Print (sample_line r)) (take 5 (order_by_date E (table s1)))"
    by (rule events_since_ext)
  from import_rows_added [OF assms(2)] obtain added where
    "table s1 = table (py_print Importing (py_print ReadingFrom s)) @ added"
    "ic = 0 + length added"
    by blast
  then have grow: "length (table s1) = length (table s) + ic" by simp
  from mset_eq_length [OF assms(5)]
  have len: "length (take 5 (order_by_date E (table s1))) = min 5 (length (table s1))"
    by (simp add: min.commute)
  have "mset (take 5 (order_by_date E (table s1))) \<subseteq># mset (order_by_date E (table s1))"
    by (metis append_take_drop_id mset_append mset_subset_eq_add_left)
  with assms(5) have sub: "mset (take 5 (order_by_date E (table s1))) \<subseteq># mset (table s1)"
    by simp
  from out ev grow len sub show ?thesis by simp
qed

text \<open>A file of two rows, one of them with the amount \<open>abc\<close>.\<close>

theorem report_prints_witness:
  "csv (sample_env (Opened [sample_row ''T1'' ''40'', sample_row ''T2'' ''abc''] None) None) =
     Opened [sample_row ''T1'' ''40'', sample_row ''T2'' ''abc''] None \<and>
   import_rows (sample_env (Opened [sample_row ''T1'' ''40'', sample_row ''T2'' ''abc''] None) None)
     [sample_row ''T1'' ''40'', sample_row ''T2'' ''abc'']
     (0, 0, py_print Importing (py_print ReadingFrom \<lparr>table = [], trace = []\<rparr>)) =
     (1, 1, \<lparr>table = [sample_txn ''T1'' 40],
             trace = [Print ReadingFrom, Print Importing, Db (Insert (sample_txn ''T1'' 40)),
                      Print (RowError 2 ValueError)]\<rparr>) \<and>
   events_since
     \<lparr>table = [sample_txn ''T1'' 40],
      trace = [Print ReadingFrom, Print Importing, Db (Insert (sample_txn ''T1'' 40)),
               Print (RowError 2 ValueError)]\<rparr>
     (snd (load_csv
        (sample_env (Opened [sample_row ''T1'' ''40'', sample_row ''T2'' ''abc''] None) None)
        \<lparr>table = [], trace = []\<rparr>)) =
     [Db Commit, Print Rule, Print Completed, Print (Imported 1), Print (Errors 1), Print Rule,
      Db SelectTop5, Print SampleHeader, Print Dashes,
      Print (sample_line (sample_txn ''T1'' 40))]"
proof -
  let ?rows = "[sample_row ''T1'' ''40'', sample_row ''T2'' ''abc'']"
  let ?E = "sample_env (Opened ?rows None) None"
  let ?s = "\<lparr>table = [], trace = []\<rparr> :: int state"
  let ?t = "\<lparr>table = [sample_txn ''T1'' 40],
      trace = [Print ReadingFrom, Print Importing, Db (Insert (sample_txn ''T1'' 40)),
               Print (RowError 2 ValueError)]\<rparr> :: int state"
  have c1: "convert_row sample_float (sample_row ''T1'' ''40'') = Inr (sample_txn ''T1'' 40)"
    by (rule sample_row_converts) (simp add: sample_float_def)
  have c2: "convert_row sample_float (sample_row ''T2'' ''abc'') = Inl ValueError"
    by (rule sample_row_fails) (simp add: sample_float_def)
  have c: "csv ?E = Opened ?rows None" by (simp add: sample_env_sel)
  have run: "import_rows ?E ?rows (0, 0, py_print Importing (py_print ReadingFrom ?s)) =
      (1, 1, ?t)"
    by (simp add: import_row_def try_row_def sample_env_sel db_exec_def effect_def c1 c2
        py_print_def emit_def)
  have k: "db_ok ?E (length (trace ?t)) Commit (table ?t)" by (simp add: sample_env_sel)
  have q: "\<forall>n. db_ok ?E n SelectTop5 (table ?t)" by (simp add: sample_env_sel)
  have m: "mset (order_by_date ?E (table ?t)) = mset (table ?t)" by (simp add: sample_env_sel)
  from report_prints [OF c run k q m] c run show ?thesis
    by (simp add: sample_env_sel)
qed

subsection \<open>Files of well-formed rows\<close>

lemma well_formedD:
  "well_formed E row \<Longrightarrow> \<exists>t. convert_row (pyfloat E) row = Inr t \<and> accepted E t"
  by (cases "convert_row (pyfloat E) row") (simp_all add: well_formed_def)

lemma converted_well_formed:
  "\<forall>row\<in>set rows. well_formed E row \<Longrightarrow>
     length (converted (pyfloat E) rows) = length rows"
proof (induction rows)
  case Nil
  then show ?case by (simp add: converted_def)
next
  case (Cons row rows)
  from Cons.prems have "well_formed E row" by simp
  from well_formedD [OF this] obtain t where "convert_row (pyfloat E) row = Inr t" by blast
  with Cons show ?case by (simp add: converted_Cons)
qed

lemma well_formed_accepted:
  "\<forall>row\<in>set rows. well_formed E row \<or> amount_unparseable (pyfloat E) row \<Longrightarrow>
     \<forall>row\<in>set rows. \<forall>t. convert_row (pyfloat E) row = Inr t \<longrightarrow> accepted E t"
proof (intro ballI allI impI)
  fix row t
  assume all: "\<forall>row\<in>set rows. well_formed E row \<or> amount_unparseable (pyfloat E) row"
    and mem: "row \<in> set rows" and t: "convert_row (pyfloat E) row = Inr t"
  from amount_unparseable_fails [of "pyfloat E" row] t
  have "\<not> amount_unparseable (pyfloat E) row" by auto
  with all mem have "well_formed E row" by blast
  from well_formedD [OF this] t show "accepted E t" by simp
qed

lemma import_rows_inserts:
  assumes "\<forall>n tbl. db_ok E n Commit tbl"
    and "\<forall>row\<in>set rows. \<forall>t. convert_row (pyfloat E) row = Inr t \<longrightarrow> accepted E t"
    and "import_rows E rows (ic, ec, s) = (ic', ec', s')"
  shows "\<exists>evs. trace s' = trace s @ evs \<and> inserts_of evs = converted (pyfloat E) rows"
proof -
  from import_rows_ext [OF assms(3)] obtain evs where ev: "trace s' = trace s @ evs" by blast
  from import_rows_result [OF assms]
  have "inserts_of (trace s') = inserts_of (trace s) @ converted (pyfloat E) rows" by simp
  with ev have "inserts_of evs = converted (pyfloat E) rows" by simp
  with ev show ?thesis by blast
qed

lemma load_csv_imports:
  assumes h: "db_healthy E" and c: "csv E = Opened rows None"
    and acc: "\<forall>row\<in>set rows. \<forall>t. convert_row (pyfloat E) row = Inr t \<longrightarrow> accepted E t"
  shows "fst (load_csv E s) = Returned \<and>
         table (snd (load_csv E s)) = table s @ converted (pyfloat E) rows \<and>
         (\<exists>evs. trace (snd (load_csv E s)) = trace s @ evs \<and>
                inserts_of evs = converted (pyfloat E) rows \<and>
                Print (Imported (length (converted (pyfloat E) rows))) \<in> set evs)"
proof -
  let ?s0 = "py_print Importing (py_print ReadingFrom s)"
  obtain ic ec s1 where loop: "import_rows E rows (0, 0, ?s0) = (ic, ec, s1)"
    by (cases "import_rows E rows (0, 0, ?s0)") auto
  have cm: "\<forall>n tbl. db_ok E n Commit tbl" using healthyD(3) [OF h] by simp
  from import_rows_result [OF cm acc loop]
  have ic: "ic = length (converted (pyfloat E) rows)"
    and tb: "table s1 = table s @ converted (pyfloat E) rows"
    by simp_all
  from import_rows_inserts [OF cm acc loop] obtain evs where
    ev: "trace s1 = trace ?s0 @ evs" and ins: "inserts_of evs = converted (pyfloat E) rows"
    by blast
  note run = load_csv_readable [OF h c loop]
  let ?tail = "[Db Commit, Print Rule, Print Completed, Print (Imported ic)] @
           (if ec > 0 then [Print (Errors ec)] else []) @
           [Print Rule, Db SelectTop5, Print SampleHeader, Print Dashes] @
           map (\<lambda>r. Print (sample_line r)) (take 5 (order_by_date E (table s1)))"
  let ?all = "[Print ReadingFrom, Print Importing] @ evs @ ?tail"
  have t: "trace (snd (load_csv E s)) = trace s @ ?all"
    using run(3) ev by simp
  have i: "inserts_of ?all = converted (pyfloat E) rows"
    using ins by simp
  have p: "Print (Imported (length (converted (pyfloat E) rows))) \<in> set ?all"
    using ic by simp
  from t i p have "\<exists>evs. trace (snd (load_csv E s)) = trace s @ evs \<and>
                inserts_of evs = converted (pyfloat E) rows \<and>
                Print (Imported (length (converted (pyfloat E) rows))) \<in> set evs"
    by blast
  with run(1) run(2) tb show ?thesis by simp
qed

lemma main_reachable:
  assumes "reachable E" and "announce_ok E"
  shows "fst (main E tbl) =
           exit_code (fst (import_csv_data E (py_print Connected (py_print Rule
             (py_print Title (py_print Rule \<lparr>table = tbl, trace = []\<rparr>))))))"
    and "table (snd (main E tbl)) =
           table (snd (import_csv_data E (py_print Connected (py_print Rule
             (py_print Title (py_print Rule \<lparr>table = tbl, trace = []\<rparr>))))))"
    and "trace (snd (main E tbl)) =
           trace (snd (import_csv_data E (py_print Connected (py_print Rule
             (py_print Title (py_print Rule \<lparr>table = tbl, trace = []\<rparr>)))))) @
           [Db CloseConn, Print Closed]"
proof -
  from assms have c: "connect_ok E" and h: "db_healthy E" and a: "announce_ok E"
    by (simp_all add: reachable_def)
  let ?s = "py_print Connected (py_print Rule (py_print Title (py_print Rule
              \<lparr>table = tbl, trace = []\<rparr>)))"
  obtain out s1 where run: "import_csv_data E ?s = (out, s1)"
    by (cases "import_csv_data E ?s") auto
  with c a show "fst (main E tbl) = exit_code (fst (import_csv_data E ?s))"
    "table (snd (main E tbl)) = table (snd (import_csv_data E ?s))"
    "trace (snd (main E tbl)) = trace (snd (import_csv_data E ?s)) @ [Db CloseConn, Print Closed]"
    by (simp_all add: main_def db_exec_healthy [OF h])
qed

subsection \<open>C1: a file of well-formed rows on an empty table\<close>

text \<open>
  C1. The database is reachable and the connection is announced, the table is empty, the
  file is read to its end and each of its N rows is well formed: it converts, and the database accepts its INSERT. Then the
  loop ends with \<open>imported_count\<close> N and \<open>error_count\<close> 0, the run issues exactly the N
  INSERTs of the rows, in order, the table holds these N rows, the report gives N as the
  number imported, and the exit code is 0.
\<close>

theorem import_well_formed_file:
  assumes "reachable E" and "announce_ok E" and "csv E = Opened rows None"
    and "\<forall>row\<in>set rows. well_formed E row"
  shows "(\<forall>s. \<exists>s'. import_rows E rows (0, 0, s) = (length rows, 0, s')) \<and>
         fst (main E []) = 0 \<and>
         table (snd (main E [])) = converted (pyfloat E) rows \<and>
         length (table (snd (main E []))) = length rows \<and>
         inserts_of (trace (snd (main E []))) = converted (pyfloat E) rows \<and>
         Print (Imported (length rows)) \<in> set (trace (snd (main E [])))"
proof -
  from assms(1) have h: "db_healthy E" by (simp add: reachable_def)
  have cm: "\<forall>n tbl. db_ok E n Commit tbl" using healthyD(3) [OF h] by simp
  have acc: "\<forall>row\<in>set rows. \<forall>t. convert_row (pyfloat E) row = Inr t \<longrightarrow> accepted E t"
    using assms(4) by (intro well_formed_accepted) blast
  have len: "length (converted (pyfloat E) rows) = length rows"
    using assms(4) by (rule converted_well_formed)
  have counters: "\<forall>s. \<exists>s'. import_rows E rows (0, 0, s) = (length rows, 0, s')"
  proof
    fix s
    obtain ic ec s' where run: "import_rows E rows (0, 0, s) = (ic, ec, s')"
      by (cases "import_rows E rows (0, 0, s)") auto
    from import_rows_result [OF cm acc run] len have "ic = length rows" "ec = 0" by simp_all
    with run show "\<exists>s'. import_rows E rows (0, 0, s) = (length rows, 0, s')" by blast
  qed
  let ?s = "py_print Connected (py_print Rule (py_print Title (py_print Rule
              \<lparr>table = [], trace = []\<rparr>)))"
  have eq: "import_csv_data E ?s = load_csv E (emit (Db Count) ?s)"
    by (rule import_csv_data_empty [OF h]) simp
  from load_csv_imports [OF h assms(3) acc, of "emit (Db Count) ?s"] obtain evs where
    out: "fst (load_csv E (emit (Db Count) ?s)) = Returned"
    and tb: "table (snd (load_csv E (emit (Db Count) ?s))) = converted (pyfloat E) rows"
    and tr: "trace (snd (load_csv E (emit (Db Count) ?s))) = trace (emit (Db Count) ?s) @ evs"
    and ins: "inserts_of evs = converted (pyfloat E) rows"
    and pr: "Print (Imported (length (converted (pyfloat E) rows))) \<in> set evs"
    by auto
  note m = main_reachable [OF assms(1,2), of "[]"]
  have "fst (main E []) = 0" using m(1) eq out by (simp add: exit_code_def)
  moreover have "table (snd (main E [])) = converted (pyfloat E) rows" using m(2) eq tb by simp
  moreover have "inserts_of (trace (snd (main E []))) = converted (pyfloat E) rows"
    using m(3) eq tr ins by simp
  moreover have "Print (Imported (length rows)) \<in> set (trace (snd (main E [])))"
    using m(3) eq tr pr len by simp
  ultimately show ?thesis using counters len by simp
qed

text \<open>A file of two good rows.\<close>

theorem import_well_formed_file_witness:
  "reachable (sample_env (Opened [sample_row ''T1'' ''40'', sample_row ''T2'' ''-7''] None) None) \<and>
   announce_ok (sample_env (Opened [sample_row ''T1'' ''40'', sample_row ''T2'' ''-7''] None) None) \<and>
   well_formed (sample_env (Opened [sample_row ''T1'' ''40'', sample_row ''T2'' ''-7''] None) None)
     (sample_row ''T1'' ''40'') \<and>
   well_formed (sample_env (Opened [sample_row ''T1'' ''40'', sample_row ''T2'' ''-7''] None) None)
     (sample_row ''T2'' ''-7'') \<and>
   fst (main (sample_env (Opened [sample_row ''T1'' ''40'', sample_row ''T2'' ''-7''] None) None) [])
     = 0 \<and>
   table (snd (main
     (sample_env (Opened [sample_row ''T1'' ''40'', sample_row ''T2'' ''-7''] None) None) []))
     = [sample_txn ''T1'' 40, sample_txn ''T2'' (-7)]"
proof -
  let ?rows = "[sample_row ''T1'' ''40'', sample_row ''T2'' ''-7'']"
  let ?E = "sample_env (Opened ?rows None) None"
  have c1: "convert_row sample_float (sample_row ''T1'' ''40'') = Inr (sample_txn ''T1'' 40)"
    by (rule sample_row_converts) (simp add: sample_float_def)
  have c2: "convert_row sample_float (sample_row ''T2'' ''-7'') = Inr (sample_txn ''T2'' (-7))"
    by (rule sample_row_converts) (simp add: sample_float_def)
  have r: "reachable ?E" by (simp add: reachable_def db_healthy_def sample_env_sel)
  have a: "announce_ok ?E" by (simp add: sample_env_sel)
  have c: "csv ?E = Opened ?rows None" by (simp add: sample_env_sel)
  have w: "\<forall>row\<in>set ?rows. well_formed ?E row"
    by (simp add: well_formed_def sample_env_sel c1 c2 sample_env_accepts)
  from import_well_formed_file [OF r a c w] r a w show ?thesis
    by (simp add: converted_def sample_env_sel c1 c2)
qed

subsection \<open>C2: rows whose amount is not a number\<close>

text \<open>
  C2. In any file and on any database, a row for which \<open>float(row['amount'])\<close> raises is
  skipped: its iteration issues no database call and changes nothing but \<open>error_count\<close>,
  which grows by exactly 1, and the message it prints; the loop then goes on with the rows
  that follow. A row that converts is imported whenever the database executes its INSERT:
  it is added to the table and \<open>imported_count\<close> grows by 1. At the end of the loop the
  INSERTs issued are those of the rows that convert, in order, so none for a row whose
  amount is not a number; \<open>error_count\<close> is at least the number of such rows;
  \<open>imported_count\<close> is the number of rows added to the table; and every well-formed row
  of the file is among the rows added, in the order of the file.
\<close>

theorem unparseable_amount_skipped:
  "(amount_unparseable (pyfloat E) row \<longrightarrow>
      (\<exists>e. import_row E row (i, j, u) =
             (i, j + 1, py_print (RowError (i + (j + 1)) e) u) \<and>
           import_rows E (pre @ row # post) (0, 0, s) =
             import_rows E post
               (case import_rows E pre (0, 0, s) of
                  (ic, ec, st) \<Rightarrow> (ic, ec + 1, py_print (RowError (ic + (ec + 1)) e) st)))) \<and>
   (\<forall>t. convert_row (pyfloat E) row = Inr t \<and>
        db_ok E (length (trace u)) (Insert t) (table u) \<longrightarrow>
        (case import_row E row (i, j, u) of
           (ic', ec', s') \<Rightarrow> ic' = i + 1 \<and> table s' = table u @ [t])) \<and>
   (case import_rows E rows (0, 0, s) of
      (ic, ec, s') \<Rightarrow>
        inserts_of (events_since s s') = converted (pyfloat E) rows \<and>
        length (filter (amount_unparseable (pyfloat E)) rows) \<le> ec \<and>
        (\<exists>added. table s' = table s @ added \<and> length added = ic \<and>
           subseq added (converted (pyfloat E) rows) \<and>
           subseq (converted (pyfloat E) (filter (well_formed E) rows)) added))"
proof (intro conjI impI allI)
  assume bad: "amount_unparseable (pyfloat E) row"
  from amount_unparseable_fails [OF bad] obtain e where
    e: "convert_row (pyfloat E) row = Inl e" by blast
  obtain ic ec st where pre: "import_rows E pre (0, 0, s) = (ic, ec, st)"
    by (cases "import_rows E pre (0, 0, s)") auto
  have "import_rows E (pre @ row # post) (0, 0, s) =
          import_rows E post (import_row E row (ic, ec, st))"
    using pre by (simp add: import_rows_append)
  also have "\<dots> = import_rows E post
      (case import_rows E pre (0, 0, s) of
         (ic, ec, st) \<Rightarrow> (ic, ec + 1, py_print (RowError (ic + (ec + 1)) e) st))"
    using pre import_row_skip [OF e, of ic ec st] by simp
  finally show "\<exists>e. import_row E row (i, j, u) =
             (i, j + 1, py_print (RowError (i + (j + 1)) e) u) \<and>
           import_rows E (pre @ row # post) (0, 0, s) =
             import_rows E post
               (case import_rows E pre (0, 0, s) of
                  (ic, ec, st) \<Rightarrow> (ic, ec + 1, py_print (RowError (ic + (ec + 1)) e) st))"
    using import_row_skip [OF e, of i j u] by blast
next
  fix t
  assume ok: "convert_row (pyfloat E) row = Inr t \<and>
        db_ok E (length (trace u)) (Insert t) (table u)"
  obtain ic' ec' s' where step: "import_row E row (i, j, u) = (ic', ec', s')"
    by (cases "import_row E row (i, j, u)") auto
  from import_row_cases [OF step] ok step show
    "case import_row E row (i, j, u) of
       (ic', ec', s') \<Rightarrow> ic' = i + 1 \<and> table s' = table u @ [t]"
    by simp
next
  obtain ic ec s' where run: "import_rows E rows (0, 0, s) = (ic, ec, s')"
    by (cases "import_rows E rows (0, 0, s)") auto
  from import_rows_added [OF run] obtain added where
    tb: "table s' = table s @ added" and cnt: "ic = 0 + length added"
    and sub: "subseq added (converted (pyfloat E) rows)"
    and acc: "subseq (filter (accepted E) (converted (pyfloat E) rows)) added"
    and err: "0 + length rows \<le> ec + length added"
    by blast
  from sub have "length added \<le> length (converted (pyfloat E) rows)" by (rule list_emb_length)
  with err unparseable_count [of "pyfloat E" rows]
  have bad: "length (filter (amount_unparseable (pyfloat E)) rows) \<le> ec" by simp
  from tb cnt sub acc
  have "\<exists>added. table s' = table s @ added \<and> length added = ic \<and>
           subseq added (converted (pyfloat E) rows) \<and>
           subseq (converted (pyfloat E) (filter (well_formed E) rows)) added"
    by (auto simp: converted_well_formed_filter)
  with import_rows_since [OF run] bad run show
    "case import_rows E rows (0, 0, s) of
      (ic, ec, s') \<Rightarrow>
        inserts_of (events_since s s') = converted (pyfloat E) rows \<and>
        length (filter (amount_unparseable (pyfloat E)) rows) \<le> ec \<and>
        (\<exists>added. table s' = table s @ added \<and> length added = ic \<and>
           subseq added (converted (pyfloat E) rows) \<and>
           subseq (converted (pyfloat E) (filter (well_formed E) rows)) added)"
    by simp
qed

text \<open>
  A file of four rows: a good row, a row with the amount \<open>abc\<close>, a row without columns,
  and a good row. Two rows are imported and two are counted as errors.
\<close>

theorem unparseable_amount_skipped_witness:
  "amount_unparseable (pyfloat (sample_env (Opened [] None) None)) (sample_row ''T2'' ''abc'') \<and>
   import_row (sample_env (Opened [] None) None) (sample_row ''T2'' ''abc'')
     (1, 0, \<lparr>table = [sample_txn ''T1'' 40], trace = []\<rparr>) =
     (1, 1, py_print (RowError 2 ValueError) \<lparr>table = [sample_txn ''T1'' 40], trace = []\<rparr>) \<and>
   (case import_rows (sample_env (Opened [] None) None)
           [sample_row ''T1'' ''40'', sample_row ''T2'' ''abc'', row_of [],
            sample_row ''T3'' ''-7'']
           (0, 0, \<lparr>table = [], trace = []\<rparr>) of
      (ic, ec, s') \<Rightarrow>
        ic = 2 \<and> ec = 2 \<and> table s' = [sample_txn ''T1'' 40, sample_txn ''T3'' (-7)] \<and>
        inserts_of (events_since \<lparr>table = [], trace = []\<rparr> s') =
          [sample_txn ''T1'' 40, sample_txn ''T3'' (-7)])"
proof -
  let ?E = "sample_env (Opened [] None) None"
  let ?rows = "[sample_row ''T1'' ''40'', sample_row ''T2'' ''abc'', row_of [],
            sample_row ''T3'' ''-7'']"
  let ?s = "\<lparr>table = [], trace = []\<rparr> :: int state"
  let ?s1 = "\<lparr>table = [sample_txn ''T1'' 40], trace = []\<rparr> :: int state"
  have f: "pyfloat ?E = sample_float" by (simp add: sample_env_sel)
  have ok: "db_ok ?E = (\<lambda>n q tbl. True)" by (simp add: sample_env_sel)
  have c1: "convert_row sample_float (sample_row ''T1'' ''40'') = Inr (sample_txn ''T1'' 40)"
    by (rule sample_row_converts) (simp add: sample_float_def)
  have c4: "convert_row sample_float (sample_row ''T3'' ''-7'') = Inr (sample_txn ''T3'' (-7))"
    by (rule sample_row_converts) (simp add: sample_float_def)
  have c2: "convert_row sample_float (sample_row ''T2'' ''abc'') = Inl ValueError"
    by (rule sample_row_fails) (simp add: sample_float_def)
  have c3: "convert_row sample_float (row_of []) = Inl (KeyError ''is_recurring'')"
    by (simp add: convert_row_def and_then_def lookup_def row_of_def)
  have u2: "amount_unparseable (pyfloat ?E) (sample_row ''T2'' ''abc'')"
    by (simp add: f amount_unparseable_def and_then_def lookup_def py_float_def
        sample_row_def row_of_def sample_float_def)
  have run: "import_rows ?E ?rows (0, 0, ?s) =
      (2, 2, \<lparr>table = [sample_txn ''T1'' 40, sample_txn ''T3'' (-7)],
              trace = [Db (Insert (sample_txn ''T1'' 40)), Print (RowError 2 ValueError),
                       Print (RowError 3 (KeyError ''is_recurring'')),
                       Db (Insert (sample_txn ''T3'' (-7)))]\<rparr>)"
    by (simp add: import_row_def try_row_def f ok db_exec_def effect_def c1 c2 c3 c4
        py_print_def emit_def)
  note inst = unparseable_amount_skipped
    [where E = ?E and row = "sample_row ''T2'' ''abc''" and i = 1 and j = 0
       and u = ?s1 and rows = ?rows and s = ?s and pre = "[]" and post = "[]"]
  from inst u2 c2 have step: "import_row ?E (sample_row ''T2'' ''abc'') (1, 0, ?s1) =
     (1, 1, py_print (RowError 2 ValueError) ?s1)"
    by (auto simp: f import_row_def try_row_def)
  from inst run have ins: "inserts_of (events_since ?s
      \<lparr>table = [sample_txn ''T1'' 40, sample_txn ''T3'' (-7)],
              trace = [Db (Insert (sample_txn ''T1'' 40)), Print (RowError 2 ValueError),
                       Print (RowError 3 (KeyError ''is_recurring'')),
                       Db (Insert (sample_txn ''T3'' (-7)))]\<rparr>) =
      converted (pyfloat ?E) ?rows"
    by simp
  from u2 step run ins show ?thesis
    by (simp add: f converted_def c1 c2 c3 c4)
qed

subsection \<open>C4: the operator confirms\<close>






end
